theory Spec2Isabelle
  imports Main "HOL-Library.Word"
begin

section \<open>Go strings as byte sequences\<close>

text \<open>
  A Go string is a sequence of bytes, and \<open>s[:1]\<close>, \<open>s[1:]\<close> and \<open>len(s)\<close> count bytes,
  so a string is modelled as a \<open>char list\<close> (an Isabelle \<open>char\<close> is one byte).  Text read
  from a sheet is UTF-8, hence a character outside ASCII is two to four bytes.
\<close>

definition byte :: "char \<Rightarrow> nat" where
  "byte c = of_char c"

definition inRange :: "nat \<Rightarrow> nat \<Rightarrow> char \<Rightarrow> bool" where
  "inRange lo hi c = (lo \<le> byte c \<and> byte c \<le> hi)"

definition isASCII :: "string \<Rightarrow> bool" where
  "isASCII s = list_all (\<lambda>c. byte c < 128) s"

definition asciiLower :: "char \<Rightarrow> char" where
  "asciiLower c = (if inRange 65 90 c then char_of (byte c + 32) else c)"

definition asciiUpper :: "char \<Rightarrow> char" where
  "asciiUpper c = (if inRange 97 122 c then char_of (byte c - 32) else c)"

text \<open>
  \<open>utf8.DecodeRuneInString\<close>: the width of the well-formed UTF-8 encoding that starts the
  string, and 0 when the first byte starts none (the decoder then yields \<open>RuneError\<close> with
  width 1).  The second-byte ranges exclude overlong forms, surrogates and code points
  above U+10FFFF, as the decoder's table does.
\<close>

fun runeWidth :: "string \<Rightarrow> nat" where
  "runeWidth [] = 0"
| "runeWidth (a # s) =
     (if byte a < 128 then 1
      else if inRange 194 223 a then
        (case s of b # _ \<Rightarrow> if inRange 128 191 b then 2 else 0 | _ \<Rightarrow> 0)
      else if inRange 224 239 a then
        (case s of b # c # _ \<Rightarrow>
           if inRange (if byte a = 224 then 160 else 128) (if byte a = 237 then 159 else 191) b
              \<and> inRange 128 191 c then 3 else 0
         | _ \<Rightarrow> 0)
      else if inRange 240 244 a then
        (case s of b # c # d # _ \<Rightarrow>
           if inRange (if byte a = 240 then 144 else 128) (if byte a = 244 then 143 else 191) b
              \<and> inRange 128 191 c \<and> inRange 128 191 d then 4 else 0
         | _ \<Rightarrow> 0)
      else 0)"

text \<open>The UTF-8 encoding of U+FFFD, which \<open>strings.Map\<close> writes for every invalid byte.\<close>

definition RuneError :: string where
  "RuneError = [CHR 0xEF, CHR 0xBF, CHR 0xBD]"

text \<open>
  \<open>strings.Map\<close> with a case mapping: an ASCII byte is mapped by \<open>f\<close>, a byte that starts no
  well-formed encoding is replaced by U+FFFD, and a well-formed multi-byte rune is
  replaced by what \<open>folds\<close> lists for its encoding, or copied when \<open>folds\<close> lists nothing.
  \<open>strings.ToLower\<close> and \<open>strings.ToUpper\<close> are this function on the ASCII case pairs and
  on the runes outside ASCII whose image is an ASCII letter: U+0130 and U+212A become
  \<open>i\<close> and \<open>k\<close> in lower case, U+0131 and U+017F become \<open>I\<close> and \<open>S\<close> in upper case.  Go
  maps the other cased runes outside ASCII (U+00C9 to U+00E9, Greek, Cyrillic) through
  the tables of its \<open>unicode\<close> package, which are not reproduced here: the model copies
  them.  Their images are outside ASCII as well, so the model is exact on every string
  without such a rune, on every single byte (\<open>s[:1]\<close>), and, for every string, in every
  comparison of the result with an ASCII literal and in every search for an ASCII
  substring in it.
\<close>

function mapRunes :: "(char \<Rightarrow> char) \<Rightarrow> (string \<times> string) list \<Rightarrow> string \<Rightarrow> string" where
  "mapRunes f folds [] = []"
| "mapRunes f folds (a # s) =
     (if byte a < 128 then f a # mapRunes f folds s
      else if runeWidth (a # s) = 0 then RuneError @ mapRunes f folds s
      else (case map_of folds (a # take (runeWidth (a # s) - 1) s) of
              None \<Rightarrow> a # take (runeWidth (a # s) - 1) s
            | Some r \<Rightarrow> r)
           @ mapRunes f folds (drop (runeWidth (a # s) - 1) s))"
  by pat_completeness auto
termination
  by (relation "measure (\<lambda>(f, folds, s). length s)") auto

definition lowerFolds :: "(string \<times> string) list" where
  "lowerFolds = [([CHR 0xC4, CHR 0xB0], ''i''), ([CHR 0xE2, CHR 0x84, CHR 0xAA], ''k'')]"

definition upperFolds :: "(string \<times> string) list" where
  "upperFolds = [([CHR 0xC4, CHR 0xB1], ''I''), ([CHR 0xC5, CHR 0xBF], ''S'')]"

definition ToLower :: "string \<Rightarrow> string" where
  "ToLower s = mapRunes asciiLower lowerFolds s"

definition ToUpper :: "string \<Rightarrow> string" where
  "ToUpper s = mapRunes asciiUpper upperFolds s"

fun HasPrefix :: "string \<Rightarrow> string \<Rightarrow> bool" where
  "HasPrefix s [] = True"
| "HasPrefix [] (p # ps) = False"
| "HasPrefix (c # cs) (p # ps) = (c = p \<and> HasPrefix cs ps)"

definition HasSuffix :: "string \<Rightarrow> string \<Rightarrow> bool" where
  "HasSuffix s suf = HasPrefix (rev s) (rev suf)"

fun Contains :: "string \<Rightarrow> string \<Rightarrow> bool" where
  "Contains [] sub = (sub = [])"
| "Contains (c # cs) sub = (HasPrefix (c # cs) sub \<or> Contains cs sub)"

definition ContainsAny :: "string \<Rightarrow> string \<Rightarrow> bool" where
  "ContainsAny s chars = list_ex (\<lambda>c. c \<in> set chars) s"

text \<open>
  \<open>unicode.IsSpace\<close> holds of the six ASCII characters tab, LF, VT, FF, CR and space, and
  of U+0085, U+00A0, U+1680, U+2000 to U+200A, U+2028, U+2029, U+202F, U+205F and U+3000.
  \<open>spaceRunes\<close> lists their UTF-8 encodings.  A string starts (ends) with one of these
  encodings exactly when the rune decoded at its start (end) is a space, so
  \<open>strings.TrimSpace\<close> strips these byte sequences from both ends.
\<close>

definition spaceRunes :: "string list" where
  "spaceRunes =
     [[CHR 0x09], [CHR 0x0A], [CHR 0x0B], [CHR 0x0C], [CHR 0x0D], [CHR 0x20],
      [CHR 0xC2, CHR 0x85], [CHR 0xC2, CHR 0xA0], [CHR 0xE1, CHR 0x9A, CHR 0x80],
      [CHR 0xE2, CHR 0x80, CHR 0x80], [CHR 0xE2, CHR 0x80, CHR 0x81],
      [CHR 0xE2, CHR 0x80, CHR 0x82], [CHR 0xE2, CHR 0x80, CHR 0x83],
      [CHR 0xE2, CHR 0x80, CHR 0x84], [CHR 0xE2, CHR 0x80, CHR 0x85],
      [CHR 0xE2, CHR 0x80, CHR 0x86], [CHR 0xE2, CHR 0x80, CHR 0x87],
      [CHR 0xE2, CHR 0x80, CHR 0x88], [CHR 0xE2, CHR 0x80, CHR 0x89],
      [CHR 0xE2, CHR 0x80, CHR 0x8A], [CHR 0xE2, CHR 0x80, CHR 0xA8],
      [CHR 0xE2, CHR 0x80, CHR 0xA9], [CHR 0xE2, CHR 0x80, CHR 0xAF],
      [CHR 0xE2, CHR 0x81, CHR 0x9F], [CHR 0xE3, CHR 0x80, CHR 0x80]]"

text \<open>The length of the token of \<open>toks\<close> that starts \<open>s\<close>, 0 when there is none.\<close>

definition tokenWidth :: "string list \<Rightarrow> string \<Rightarrow> nat" where
  "tokenWidth toks s =
     (case find (\<lambda>t. t \<noteq> [] \<and> HasPrefix s t) toks of None \<Rightarrow> 0 | Some t \<Rightarrow> length t)"

fun stripTokens :: "string list \<Rightarrow> string \<Rightarrow> string" where
  "stripTokens toks [] = []"
| "stripTokens toks (a # s) =
     (if tokenWidth toks (a # s) = 0 then a # s
      else stripTokens toks (drop (tokenWidth toks (a # s) - 1) s))"

definition TrimSpace :: "string \<Rightarrow> string" where
  "TrimSpace s = rev (stripTokens (map rev spaceRunes) (rev (stripTokens spaceRunes s)))"

section \<open>Data model\<close>

datatype Orientation = OrientationHorizontal | OrientationVertical

datatype FieldFlag = FieldFlagAll | FieldFlagServer | FieldFlagClient | FieldFlagNone

record Field =
  RawName :: string
  Name :: string
  RawType :: string
  GoType :: string
  Col :: int
  Flag :: FieldFlag
  Exported :: bool
  IsComment :: bool

record HeaderSpec =
  HeaderRows :: int
  Orientation :: Orientation
  DefineRow :: int

text \<open>
  The errors of the program are Go error values built with \<open>errors.New\<close> and \<open>fmt.Errorf\<close>;
  each constructor stands for one message and carries the message's parameters.  The
  reasons a cell fails to decode come from the standard library.
\<close>

datatype cause =
    AtoiError string
  | JSONError string
  | ParseFloatError string
  | ParseBoolError string
  | UnsupportedCellType string

datatype error =
    HeaderDetectionError
  | UnsupportedOrientationError string
  | DefineRowOutOfRange int
  | InvalidFieldDefinitionError string int
  | InvalidFlagError string
  | UnsupportedTypeError string
  | EmptySchemaError
  | EmptySheetNameError string
  | DuplicateKeyError string string string
  | CellParseError int int string cause
  | WithOrigin string error

section \<open>Header detection\<close>

fun rowHasFieldDefs :: "string list \<Rightarrow> bool" where
  "rowHasFieldDefs [] = False"
| "rowHasFieldDefs (c # row) = (if Contains c ''#'' then True else rowHasFieldDefs row)"

definition detectHeaderSpec :: "string list list \<Rightarrow> error + HeaderSpec" where
  "detectHeaderSpec rows =
     (if 3 \<le> length rows \<and> rowHasFieldDefs (rows ! 2) then
        (let a1 = (if 0 < length (rows ! 0) then TrimSpace (rows ! 0 ! 0) else '''');
             ori = (if a1 = ''2'' then OrientationVertical else OrientationHorizontal)
         in Inr \<lparr>HeaderRows = 3, Orientation = ori, DefineRow = 3\<rparr>)
      else if 2 \<le> length rows \<and> rowHasFieldDefs (rows ! 1) then
        Inr \<lparr>HeaderRows = 2, Orientation = OrientationHorizontal, DefineRow = 2\<rparr>
      else if 1 \<le> length rows \<and> rowHasFieldDefs (rows ! 0) then
        Inr \<lparr>HeaderRows = 1, Orientation = OrientationHorizontal, DefineRow = 1\<rparr>
      else Inl HeaderDetectionError)"

section \<open>Names\<close>

text \<open>
  \<open>strings.FieldsFunc\<close>: the maximal runs of characters that are not separators; \<open>cur\<close> is
  the run being read.  The separators used here are ASCII, so splitting bytes and
  splitting runes agree.
\<close>

fun fieldsAcc :: "(char \<Rightarrow> bool) \<Rightarrow> string \<Rightarrow> string \<Rightarrow> string list" where
  "fieldsAcc f cur [] = (if cur = [] then [] else [cur])"
| "fieldsAcc f cur (c # cs) =
     (if f c then (if cur = [] then fieldsAcc f [] cs else cur # fieldsAcc f [] cs)
      else fieldsAcc f (cur @ [c]) cs)"

definition FieldsFunc :: "(char \<Rightarrow> bool) \<Rightarrow> string \<Rightarrow> string list" where
  "FieldsFunc f s = fieldsAcc f [] s"

definition isNameSep :: "char \<Rightarrow> bool" where
  "isNameSep r = (r = CHR ''_'' \<or> r = CHR ''-'')"

text \<open>The body of the loop over the parts in \<open>exportName\<close>.\<close>

definition capitalize :: "string \<Rightarrow> string" where
  "capitalize p = (if p = [] then p else ToUpper (take 1 p) @ ToLower (drop 1 p))"

definition exportName :: "string \<Rightarrow> string" where
  "exportName name =
     (if name = [] then name
      else if \<not> ContainsAny name ''_-'' then ToUpper (take 1 name) @ drop 1 name
      else concat (map capitalize (FieldsFunc isNameSep name)))"

definition lowerFirst :: "string \<Rightarrow> string" where
  "lowerFirst s = (if s = [] then s else ToLower (take 1 s) @ drop 1 s)"

definition pluralizeTypeName :: "string \<Rightarrow> string" where
  "pluralizeTypeName typeName =
     (if typeName = [] then typeName
      else if HasSuffix typeName ''s'' \<or> HasSuffix typeName ''x'' \<or> HasSuffix typeName ''z''
              \<or> HasSuffix typeName ''ch'' \<or> HasSuffix typeName ''sh''
      then typeName @ ''es'' else typeName @ ''s'')"

section \<open>Type mapping tables\<close>

text \<open>Go's \<open>(string, bool)\<close> result is an option: \<open>None\<close> is \<open>("", false)\<close>.\<close>

definition mapGoType :: "string \<Rightarrow> string option" where
  "mapGoType t =
     (let l = ToLower t in
      if l = ''int'' \<or> l = ''int32'' \<or> l = ''int64'' then Some ''int''
      else if l = ''int[]'' then Some ''[]int''
      else if l = ''int[][]'' then Some ''[][]int''
      else if l = ''float'' \<or> l = ''float32'' \<or> l = ''float64'' then Some ''float64''
      else if l = ''bool'' then Some ''bool''
      else if l = ''string'' then Some ''string''
      else None)"

definition mapCSType :: "string \<Rightarrow> string option" where
  "mapCSType t =
     (let l = ToLower t in
      if l = ''int'' \<or> l = ''int32'' \<or> l = ''int64'' then Some ''int''
      else if l = ''int[]'' then Some ''List<int>''
      else if l = ''int[][]'' then Some ''List<List<int>>''
      else if l = ''float'' \<or> l = ''float32'' \<or> l = ''float64'' then Some ''double''
      else if l = ''bool'' then Some ''bool''
      else if l = ''string'' then Some ''string''
      else None)"

definition mapTSType :: "string \<Rightarrow> string option" where
  "mapTSType t =
     (let l = ToLower t in
      if l = ''int'' \<or> l = ''int32'' \<or> l = ''int64''
         \<or> l = ''float'' \<or> l = ''float32'' \<or> l = ''float64'' then Some ''number''
      else if l = ''int[]'' then Some ''number[]''
      else if l = ''int[][]'' then Some ''number[][]''
      else if l = ''bool'' then Some ''boolean''
      else if l = ''string'' then Some ''string''
      else None)"

section \<open>Field definitions\<close>

text \<open>
  The character classes of \<open>fieldRe\<close>.  In Go's regular expressions \<open>\s\<close> is the ASCII
  class of tab, LF, FF, CR and space (VT is not in it), and a negated class matches
  every other rune, an invalid byte included.  All the characters the expression names
  are ASCII, so matching bytes and matching runes agree.
\<close>

definition reSpace :: "char \<Rightarrow> bool" where
  "reSpace c = (c = CHR 0x09 \<or> c = CHR 0x0A \<or> c = CHR 0x0C \<or> c = CHR 0x0D \<or> c = CHR 0x20)"

definition reDigit :: "char \<Rightarrow> bool" where
  "reDigit c = inRange 48 57 c"

definition reWord :: "char \<Rightarrow> bool" where
  "reWord c = (inRange 65 90 c \<or> inRange 97 122 c \<or> reDigit c \<or> c = CHR ''_'')"

definition reTypeChar :: "char \<Rightarrow> bool" where
  "reTypeChar c = (c \<noteq> CHR '','' \<and> \<not> reSpace c)"

text \<open>
  \<open>fieldRe.FindStringSubmatch\<close> for the anchored expression
  \<^verbatim>\<open>^\s*([A-Za-z_][A-Za-z0-9_]*)\s*#\s*([^,\s]+)\s*(?:,\s*([sc]))?\s*$\<close>:
  the three groups of the match, or \<open>None\<close> when the cell does not match.  Every
  repetition is followed by something its own class excludes, so it takes the maximal
  run and the expression is matched from left to right without backtracking.  The third
  group is empty when the optional part is absent.
\<close>

definition fieldRe :: "string \<Rightarrow> (string \<times> string \<times> string) option" where
  "fieldRe s =
     (let s1 = dropWhile reSpace s;
          name = takeWhile reWord s1;
          s2 = dropWhile reSpace (dropWhile reWord s1)
      in if name = [] \<or> reDigit (hd name) then None
         else case s2 of
           [] \<Rightarrow> None
         | h # s3 \<Rightarrow>
             if h \<noteq> CHR ''#'' then None
             else
               (let s4 = dropWhile reSpace s3;
                    typ = takeWhile reTypeChar s4;
                    s5 = dropWhile reSpace (dropWhile reTypeChar s4)
                in if typ = [] then None
                   else case s5 of
                     [] \<Rightarrow> Some (name, typ, [])
                   | k # s6 \<Rightarrow>
                       if k \<noteq> CHR '','' then None
                       else case dropWhile reSpace s6 of
                         [] \<Rightarrow> None
                       | fl # s7 \<Rightarrow>
                           if (fl = CHR ''s'' \<or> fl = CHR ''c'') \<and> dropWhile reSpace s7 = []
                           then Some (name, typ, [fl]) else None))"

text \<open>The \<open>switch\<close> on the flag character, the third group of the match.\<close>

definition flagOf :: "string \<Rightarrow> FieldFlag" where
  "flagOf flagCh =
     (if flagCh = [] then FieldFlagAll
      else if flagCh = ''s'' then FieldFlagServer
      else if flagCh = ''c'' then FieldFlagClient
      else FieldFlagAll)"

text \<open>
  One iteration of the loop of \<open>parseFieldsFromDefineRow\<close> over the cells of the define
  row: \<open>Inl\<close> is an early \<open>return nil, err\<close>, \<open>Inr None\<close> a \<open>continue\<close>, and
  \<open>Inr (Some f)\<close> the field that is appended.
\<close>

definition parseCell :: "string \<Rightarrow> int \<Rightarrow> nat \<Rightarrow> string \<Rightarrow> error + Field option" where
  "parseCell exportFlag defineRow colIdx cell0 =
     (let cell = TrimSpace cell0 in
      if cell = [] then Inr None
      else if Contains (ToLower cell) ''#comment'' \<or> Contains (ToLower cell) ''#common''
      then Inr None
      else case fieldRe cell of
        None \<Rightarrow> Inl (InvalidFieldDefinitionError cell defineRow)
      | Some (rawName, rawType, flagCh) \<Rightarrow>
          if ToLower rawType = ''comment'' \<or> ToLower rawType = ''common'' then Inr None
          else
            (let ff = flagOf flagCh
             in if exportFlag = ''server'' \<and> ff = FieldFlagClient then Inr None
                else if exportFlag = ''client'' \<and> ff = FieldFlagServer then Inr None
                else if exportFlag \<noteq> [] \<and> exportFlag \<noteq> ''server'' \<and> exportFlag \<noteq> ''client''
                then Inl (InvalidFlagError exportFlag)
                else case mapGoType rawType of
                  None \<Rightarrow> Inl (UnsupportedTypeError rawType)
                | Some goType \<Rightarrow>
                    Inr (Some \<lparr>RawName = rawName, Name = exportName rawName,
                               RawType = rawType, GoType = goType, Col = int colIdx,
                               Flag = ff, Exported = True, IsComment = False\<rparr>)))"

text \<open>What the first group of \<open>fieldRe\<close> matches: an identifier that does not start with a digit.\<close>

definition isIdent :: "string \<Rightarrow> bool" where
  "isIdent name = (name \<noteq> [] \<and> \<not> reDigit (hd name) \<and> list_all reWord name)"

text \<open>The loop itself: \<open>colIdx\<close> is the index of the next cell, \<open>fields\<close> the slice built so far.\<close>

fun parseCells :: "string \<Rightarrow> int \<Rightarrow> nat \<Rightarrow> string list \<Rightarrow> Field list \<Rightarrow> error + Field list" where
  "parseCells exportFlag defineRow colIdx [] flds = Inr flds"
| "parseCells exportFlag defineRow colIdx (cell # row) flds =
     (case parseCell exportFlag defineRow colIdx cell of
        Inl e \<Rightarrow> Inl e
      | Inr None \<Rightarrow> parseCells exportFlag defineRow (Suc colIdx) row flds
      | Inr (Some f) \<Rightarrow> parseCells exportFlag defineRow (Suc colIdx) row (flds @ [f]))"

definition parseFieldsFromDefineRow :: "string list list \<Rightarrow> int \<Rightarrow> string \<Rightarrow> error + Field list" where
  "parseFieldsFromDefineRow rows defineRow exportFlag =
     (if defineRow \<le> 0 \<or> int (length rows) < defineRow then Inl (DefineRowOutOfRange defineRow)
      else case parseCells exportFlag defineRow 0 (rows ! nat (defineRow - 1)) [] of
        Inl e \<Rightarrow> Inl e
      | Inr flds \<Rightarrow> if flds = [] then Inl EmptySchemaError else Inr flds)"

text \<open>
  The test on the lower-cased cell that makes the parser skip a cell without looking at
  its shape.
\<close>

definition commentCell :: "string \<Rightarrow> bool" where
  "commentCell cell = (Contains (ToLower cell) ''#comment'' \<or> Contains (ToLower cell) ''#common'')"

text \<open>
  The same loop written without the accumulator; \<open>parseCells_rowFields\<close> below relates the
  two.  The proofs about the parser go through this form.
\<close>

fun rowFields :: "string \<Rightarrow> int \<Rightarrow> nat \<Rightarrow> string list \<Rightarrow> error + Field list" where
  "rowFields exportFlag defineRow colIdx [] = Inr []"
| "rowFields exportFlag defineRow colIdx (cell # row) =
     (case parseCell exportFlag defineRow colIdx cell of
        Inl e \<Rightarrow> Inl e
      | Inr r \<Rightarrow>
          (case rowFields exportFlag defineRow (Suc colIdx) row of
             Inl e \<Rightarrow> Inl e
           | Inr fs \<Rightarrow> Inr (case r of None \<Rightarrow> fs | Some f \<Rightarrow> f # fs)))"

section \<open>Cell values\<close>

text \<open>
  A Go slice is either \<open>nil\<close> or a sequence (possibly empty); the two differ, and
  \<open>encoding/json\<close> renders them as \<open>null\<close> and \<open>[]\<close>.  A \<open>float64\<close> is kept as its 64
  bits, the zero value being the zero word.  A decoded cell is a value of Go's \<open>any\<close>
  with one of six dynamic types; an \<open>int\<close> is taken to be 64 bits wide.
\<close>

datatype 'a slice = NilSlice | Slice "'a list"

type_synonym float64 = "64 word"

datatype "value" =
    VInt int
  | VIntSlice "int slice"
  | VIntSlice2 "int slice slice"
  | VFloat float64
  | VBool bool
  | VString string

definition inInt64 :: "int \<Rightarrow> bool" where
  "inInt64 v = (- (2 ^ 63) \<le> v \<and> v < 2 ^ 63)"

definition digitsVal :: "string \<Rightarrow> int" where
  "digitsVal ds = foldl (\<lambda>a c. 10 * a + int (byte c - 48)) 0 ds"

text \<open>
  \<open>strconv.Atoi\<close>: an optional sign, then one or more decimal digits, and the value must
  fit the \<open>int\<close> type.
\<close>

definition Atoi :: "string \<Rightarrow> int option" where
  "Atoi s =
     (let neg = (s \<noteq> [] \<and> hd s = CHR ''-'');
          body = (if s \<noteq> [] \<and> (hd s = CHR ''+'' \<or> hd s = CHR ''-'') then tl s else s)
      in if body = [] \<or> \<not> list_all reDigit body then None
         else (let v = (if neg then - digitsVal body else digitsVal body)
               in if inInt64 v then Some v else None))"

text \<open>\<open>strconv.ParseBool\<close> on the twelve spellings it accepts.\<close>

definition ParseBool :: "string \<Rightarrow> bool option" where
  "ParseBool str =
     (if str \<in> set [''1'', ''t'', ''T'', ''TRUE'', ''true'', ''True''] then Some True
      else if str \<in> set [''0'', ''f'', ''F'', ''FALSE'', ''false'', ''False''] then Some False
      else None)"

subsection \<open>Decoding a JSON array of integers\<close>

text \<open>
  \<open>json.Unmarshal\<close> into a \<open>[]int\<close> or a \<open>[][]int\<close> succeeds on exactly the texts of the
  shapes below, and fails on every other text, with a syntax error when the text is not
  JSON and with a type error when it is JSON of another shape (a string, a fraction, an
  object, an integer out of range); \<open>parseCellValue\<close> drops the value on either error, so
  the two are one error here.  The shapes: \<open>null\<close> leaves the slice \<open>nil\<close>; an array gives
  a slice that is not \<open>nil\<close>, even when empty; an element \<open>null\<close> leaves the element at
  its zero value (\<open>0\<close>, or a \<open>nil\<close> inner slice); an integer is an optional minus sign and
  \<open>0\<close> or digits not starting with \<open>0\<close>; white space is space, tab, LF and CR.
\<close>

datatype jtoken = JLBracket | JRBracket | JComma | JNull | JNum int | JBad

definition jsonSpace :: "char \<Rightarrow> bool" where
  "jsonSpace c = (c = CHR 0x20 \<or> c = CHR 0x09 \<or> c = CHR 0x0A \<or> c = CHR 0x0D)"

text \<open>The digits of the integer literal that starts the string (after the sign).\<close>

definition jsonDigits :: "string \<Rightarrow> string" where
  "jsonDigits s =
     (case s of [] \<Rightarrow> [] | d # r \<Rightarrow> if d = CHR ''0'' then [d] else takeWhile reDigit (d # r))"

function jsonTokens :: "string \<Rightarrow> jtoken list" where
  "jsonTokens [] = []"
| "jsonTokens (c # s) =
     (if jsonSpace c then jsonTokens s
      else if c = CHR ''['' then JLBracket # jsonTokens s
      else if c = CHR '']'' then JRBracket # jsonTokens s
      else if c = CHR '','' then JComma # jsonTokens s
      else if HasPrefix (c # s) ''null'' then JNull # jsonTokens (drop 3 s)
      else if c = CHR ''-'' then
        (if jsonDigits s = [] then [JBad]
         else JNum (- digitsVal (jsonDigits s)) # jsonTokens (drop (length (jsonDigits s)) s))
      else if reDigit c then
        JNum (digitsVal (jsonDigits (c # s))) # jsonTokens (drop (length (jsonDigits (c # s)) - 1) s)
      else [JBad])"
  by pat_completeness auto
termination
  by (relation "measure length") auto

text \<open>The elements of an array and its closing bracket; \<open>null\<close> leaves an \<open>int\<close> at 0.\<close>

fun jsonElems :: "jtoken list \<Rightarrow> (int list \<times> jtoken list) option" where
  "jsonElems (JNum n # JRBracket # ts) = (if inInt64 n then Some ([n], ts) else None)"
| "jsonElems (JNull # JRBracket # ts) = Some ([0], ts)"
| "jsonElems (JNum n # JComma # ts) =
     (if inInt64 n then
        (case jsonElems ts of None \<Rightarrow> None | Some (xs, r) \<Rightarrow> Some (n # xs, r))
      else None)"
| "jsonElems (JNull # JComma # ts) =
     (case jsonElems ts of None \<Rightarrow> None | Some (xs, r) \<Rightarrow> Some (0 # xs, r))"
| "jsonElems ts = None"

fun jsonIntArray :: "jtoken list \<Rightarrow> (int slice \<times> jtoken list) option" where
  "jsonIntArray (JNull # ts) = Some (NilSlice, ts)"
| "jsonIntArray (JLBracket # JRBracket # ts) = Some (Slice [], ts)"
| "jsonIntArray (JLBracket # ts) =
     (case jsonElems ts of None \<Rightarrow> None | Some (xs, r) \<Rightarrow> Some (Slice xs, r))"
| "jsonIntArray ts = None"

lemma jsonElems_shorter: "jsonElems ts = Some (xs, r) \<Longrightarrow> length r < length ts"
  by (induction ts arbitrary: xs r rule: jsonElems.induct)
     (auto split: if_splits option.splits)

lemma jsonIntArray_shorter: "jsonIntArray ts = Some (v, r) \<Longrightarrow> length r < length ts"
  by (induction ts rule: jsonIntArray.induct)
     (auto split: option.splits dest: jsonElems_shorter)

text \<open>The rows of a two-dimensional array and its closing bracket.\<close>

function jsonRows :: "jtoken list \<Rightarrow> (int slice list \<times> jtoken list) option" where
  "jsonRows ts =
     (case jsonIntArray ts of
        None \<Rightarrow> None
      | Some (v, []) \<Rightarrow> None
      | Some (v, t # r) \<Rightarrow>
          if t = JRBracket then Some ([v], r)
          else if t = JComma then
            (case jsonRows r of None \<Rightarrow> None | Some (vs, r') \<Rightarrow> Some (v # vs, r'))
          else None)"
  by pat_completeness auto
termination
  by (relation "measure length") (auto dest: jsonIntArray_shorter)

fun jsonIntArray2 :: "jtoken list \<Rightarrow> (int slice slice \<times> jtoken list) option" where
  "jsonIntArray2 (JNull # ts) = Some (NilSlice, ts)"
| "jsonIntArray2 (JLBracket # JRBracket # ts) = Some (Slice [], ts)"
| "jsonIntArray2 (JLBracket # ts) =
     (case jsonRows ts of None \<Rightarrow> None | Some (vs, r) \<Rightarrow> Some (Slice vs, r))"
| "jsonIntArray2 ts = None"

definition UnmarshalInts :: "string \<Rightarrow> cause + int slice" where
  "UnmarshalInts s =
     (case jsonIntArray (jsonTokens s) of Some (v, []) \<Rightarrow> Inr v | _ \<Rightarrow> Inl (JSONError s))"

definition UnmarshalInts2 :: "string \<Rightarrow> cause + int slice slice" where
  "UnmarshalInts2 s =
     (case jsonIntArray2 (jsonTokens s) of Some (v, []) \<Rightarrow> Inr v | _ \<Rightarrow> Inl (JSONError s))"

subsection \<open>The brace literal\<close>

text \<open>\<open>strings.Trim(s, "\"")\<close> and \<open>strings.ReplaceAll\<close> of one character by another.\<close>

definition TrimQuotes :: "string \<Rightarrow> string" where
  "TrimQuotes s = rev (dropWhile (\<lambda>c. c = CHR 0x22) (rev (dropWhile (\<lambda>c. c = CHR 0x22) s)))"

definition ReplaceAll :: "string \<Rightarrow> char \<Rightarrow> char \<Rightarrow> string" where
  "ReplaceAll s old new = map (\<lambda>c. if c = old then new else c) s"

text \<open>
  \<open>parseBraceArrayJSON\<close> up to the call of \<open>json.Unmarshal\<close>: the JSON text that the cell
  stands for.  The function of the source then decodes it into the variable it is
  given, a \<open>[]int\<close> or a \<open>[][]int\<close>.
\<close>

definition braceArrayJSON :: "string \<Rightarrow> string" where
  "braceArrayJSON s0 =
     (let s1 = TrimQuotes (TrimSpace s0);
          s2 = (if s1 = [] \<or> s1 = ''{}'' then ''[]'' else s1);
          s3 = ReplaceAll (ReplaceAll s2 (CHR ''{'') (CHR ''['')) (CHR ''}'') (CHR '']'')
      in if \<not> HasPrefix (TrimSpace s3) ''['' then ''['' @ s3 @ '']'' else s3)"

definition parseBraceArrayJSON :: "string \<Rightarrow> cause + int slice" where
  "parseBraceArrayJSON s = UnmarshalInts (braceArrayJSON s)"

definition parseBraceArrayJSON2 :: "string \<Rightarrow> cause + int slice slice" where
  "parseBraceArrayJSON2 s = UnmarshalInts2 (braceArrayJSON s)"

subsection \<open>The decoder\<close>

text \<open>
  \<open>parseCellValue\<close>.  \<open>strconv.ParseFloat\<close> is the parameter \<open>parseFloat\<close>: floating-point
  parsing is outside this development, and no property below depends on what it
  returns.
\<close>

definition parseCellValue :: "(string \<Rightarrow> float64 option) \<Rightarrow> string \<Rightarrow> string \<Rightarrow> cause + value" where
  "parseCellValue parseFloat rawType s =
     (let l = ToLower rawType in
      if s = [] then
        (if l = ''int'' \<or> l = ''int32'' \<or> l = ''int64'' then Inr (VInt 0)
         else if l = ''int[]'' then Inr (VIntSlice (Slice []))
         else if l = ''int[][]'' then Inr (VIntSlice2 (Slice []))
         else if l = ''float'' \<or> l = ''float32'' \<or> l = ''float64'' then Inr (VFloat 0)
         else if l = ''bool'' then Inr (VBool False)
         else if l = ''string'' then Inr (VString [])
         else Inl (UnsupportedCellType rawType))
      else
        (if l = ''int'' \<or> l = ''int32'' \<or> l = ''int64'' then
           (case Atoi s of None \<Rightarrow> Inl (AtoiError s) | Some v \<Rightarrow> Inr (VInt v))
         else if l = ''int[]'' then
           (case parseBraceArrayJSON s of Inl e \<Rightarrow> Inl e | Inr v \<Rightarrow> Inr (VIntSlice v))
         else if l = ''int[][]'' then
           (case parseBraceArrayJSON2 s of Inl e \<Rightarrow> Inl e | Inr v \<Rightarrow> Inr (VIntSlice2 v))
         else if l = ''float'' \<or> l = ''float32'' \<or> l = ''float64'' then
           (case parseFloat s of None \<Rightarrow> Inl (ParseFloatError s) | Some v \<Rightarrow> Inr (VFloat v))
         else if l = ''bool'' then
           (let ls = ToLower s in
            if ls = ''1'' then Inr (VBool True)
            else if ls = ''0'' then Inr (VBool False)
            else case ParseBool ls of None \<Rightarrow> Inl (ParseBoolError ls) | Some v \<Rightarrow> Inr (VBool v))
         else if l = ''string'' then Inr (VString s)
         else Inl (UnsupportedCellType rawType)))"

section \<open>Data rows\<close>

fun isEmptyRow :: "string list \<Rightarrow> bool" where
  "isEmptyRow [] = True"
| "isEmptyRow (c # row) = (if TrimSpace c \<noteq> [] then False else isEmptyRow row)"

text \<open>
  The inner loop of \<open>readHorizontalItems\<close>: the fields are decoded in order into the map
  \<open>obj\<close> of one record; \<open>r\<close> is the 0-based index of the row.
\<close>

definition cellAt :: "string list \<Rightarrow> int \<Rightarrow> string" where
  "cellAt row col = (if 0 \<le> col \<and> col < int (length row) then TrimSpace (row ! nat col) else [])"

fun readFields ::
  "(string \<Rightarrow> float64 option) \<Rightarrow> nat \<Rightarrow> string list \<Rightarrow> Field list \<Rightarrow> (string \<rightharpoonup> value)
   \<Rightarrow> error + (string \<rightharpoonup> value)" where
  "readFields parseFloat r row [] obj = Inr obj"
| "readFields parseFloat r row (field # flds) obj =
     (case parseCellValue parseFloat (RawType field) (cellAt row (Col field)) of
        Inl err \<Rightarrow> Inl (CellParseError (int r + 1) (Col field + 1) (RawName field) err)
      | Inr v \<Rightarrow> readFields parseFloat r row flds (obj(RawName field \<mapsto> v)))"

text \<open>The outer loop: \<open>rest\<close> are the rows from index \<open>r\<close> on, \<open>items\<close> the records so far.\<close>

fun readRows ::
  "(string \<Rightarrow> float64 option) \<Rightarrow> Field list \<Rightarrow> nat \<Rightarrow> string list list \<Rightarrow> (string \<rightharpoonup> value) list
   \<Rightarrow> error + (string \<rightharpoonup> value) list" where
  "readRows parseFloat flds r [] items = Inr items"
| "readRows parseFloat flds r (row # rest) items =
     (if isEmptyRow row then readRows parseFloat flds (Suc r) rest items
      else case readFields parseFloat r row flds Map.empty of
        Inl e \<Rightarrow> Inl e
      | Inr obj \<Rightarrow> readRows parseFloat flds (Suc r) rest (items @ [obj]))"

definition readHorizontalItems ::
  "(string \<Rightarrow> float64 option) \<Rightarrow> string list list \<Rightarrow> int \<Rightarrow> Field list
   \<Rightarrow> error + (string \<rightharpoonup> value) list" where
  "readHorizontalItems parseFloat rows dataStartRow0 flds =
     (let dataStartRow = (if dataStartRow0 \<le> 0 then 1 else dataStartRow0);
          r = nat (dataStartRow - 1)
      in readRows parseFloat flds r (drop r rows) [])"

text \<open>
  The rows that give a record: those from the start row on that are not empty.  The
  k-th record that \<open>readHorizontalItems\<close> returns comes from the k-th of them.
\<close>

definition dataRows :: "string list list \<Rightarrow> int \<Rightarrow> string list list" where
  "dataRows rows dataStartRow =
     filter (\<lambda>row. \<not> isEmptyRow row)
       (drop (nat ((if dataStartRow \<le> 0 then 1 else dataStartRow) - 1)) rows)"

section \<open>The aggregate\<close>

text \<open>
  The four variables that \<open>main\<close> declares before the closure \<open>addSheet\<close> and that the
  closure updates.  \<open>exitErr\<close> prints the error and ends the process: a call of it is the
  result \<open>Inl\<close>, and nothing of the aggregate survives it.
\<close>

record Aggregate =
  schemas :: "string \<rightharpoonup> Field list"
  jsonPayload :: "string \<rightharpoonup> (string \<rightharpoonup> value) list"
  seenKeys :: "string \<rightharpoonup> string"
  orderedTypeNames :: "string list"

definition emptyAggregate :: Aggregate where
  "emptyAggregate =
     \<lparr>schemas = Map.empty, jsonPayload = Map.empty, seenKeys = Map.empty, orderedTypeNames = []\<rparr>"

text \<open>
  The closure \<open>addSheet\<close>, with the two stages that follow the orientation check as
  parameters: \<open>parse\<close> stands for \<open>parseFieldsFromDefineRow\<close> (already applied to the
  export flag) and \<open>readItems\<close> for \<open>readHorizontalItems\<close>.
\<close>

definition addSheetWith ::
  "(string list list \<Rightarrow> int \<Rightarrow> error + Field list)
   \<Rightarrow> (string list list \<Rightarrow> int \<Rightarrow> Field list \<Rightarrow> error + (string \<rightharpoonup> value) list)
   \<Rightarrow> Aggregate \<Rightarrow> string \<Rightarrow> string \<Rightarrow> string list list \<Rightarrow> error + Aggregate" where
  "addSheetWith parse readItems agg origin sheetName rows =
     (case detectHeaderSpec rows of
        Inl err \<Rightarrow> Inl (WithOrigin origin err)
      | Inr spec \<Rightarrow>
          if Orientation spec = OrientationVertical then Inl (UnsupportedOrientationError origin)
          else case parse rows (DefineRow spec) of
            Inl err \<Rightarrow> Inl (WithOrigin origin err)
          | Inr flds \<Rightarrow>
              (case readItems rows (DefineRow spec + 1) flds of
                 Inl err \<Rightarrow> Inl (WithOrigin origin err)
               | Inr items \<Rightarrow>
                   (let typeName = exportName sheetName in
                    if typeName = [] then Inl (EmptySheetNameError origin)
                    else
                      (let fieldName = pluralizeTypeName typeName;
                           jsonKey = lowerFirst fieldName
                       in case seenKeys agg jsonKey of
                            Some prev \<Rightarrow> Inl (DuplicateKeyError jsonKey origin prev)
                          | None \<Rightarrow>
                              Inr (agg\<lparr>seenKeys := (seenKeys agg)(jsonKey \<mapsto> origin),
                                       schemas := (schemas agg)(typeName \<mapsto> flds),
                                       jsonPayload := (jsonPayload agg)(jsonKey \<mapsto> items),
                                       orderedTypeNames := orderedTypeNames agg @ [typeName]\<rparr>)))))"

definition addSheet ::
  "(string \<Rightarrow> float64 option) \<Rightarrow> string \<Rightarrow> Aggregate \<Rightarrow> string \<Rightarrow> string \<Rightarrow> string list list
   \<Rightarrow> error + Aggregate" where
  "addSheet parseFloat exportFlag =
     addSheetWith (\<lambda>rows defineRow. parseFieldsFromDefineRow rows defineRow exportFlag)
       (readHorizontalItems parseFloat)"

text \<open>The key under which a sheet is registered.\<close>

definition jsonKeyOf :: "string \<Rightarrow> string" where
  "jsonKeyOf sheetName = lowerFirst (pluralizeTypeName (exportName sheetName))"

text \<open>
  The loop of \<open>main\<close> over the sheets of all input files, each with its origin, its name
  and its rows; it stops at the first error.
\<close>

fun addSheets ::
  "(string \<Rightarrow> float64 option) \<Rightarrow> string \<Rightarrow> Aggregate \<Rightarrow> (string \<times> string \<times> string list list) list
   \<Rightarrow> error + Aggregate" where
  "addSheets parseFloat exportFlag agg [] = Inr agg"
| "addSheets parseFloat exportFlag agg ((origin, sheetName, rows) # sheets) =
     (case addSheet parseFloat exportFlag agg origin sheetName rows of
        Inl err \<Rightarrow> Inl err
      | Inr agg' \<Rightarrow> addSheets parseFloat exportFlag agg' sheets)"

section \<open>Code emitters\<close>

text \<open>
  Each emitter writes into a \<open>strings.Builder\<close>; the builder is the string \<open>b\<close> that the
  loops below extend.  \<open>schemas[typeName]\<close> of a missing key is the \<open>nil\<close> slice, which has
  no fields.  The parameters \<open>orderedTypeNames\<close> and \<open>schemas\<close> of the source are
  \<open>typeNames\<close> and \<open>typeFields\<close> here.
\<close>

definition NL :: string where "NL = [CHR 0x0A]"
definition TAB :: string where "TAB = [CHR 0x09]"
definition DQ :: string where "DQ = [CHR 0x22]"
definition BQ :: string where "BQ = [CHR 0x60]"

definition fieldsOf :: "(string \<rightharpoonup> Field list) \<Rightarrow> string \<Rightarrow> Field list" where
  "fieldsOf typeFields typeName = (case typeFields typeName of None \<Rightarrow> [] | Some flds \<Rightarrow> flds)"

text \<open>\<open>strings.TrimRight(s, "\n") + "\n"\<close>.\<close>

definition endWithNewline :: "string \<Rightarrow> string" where
  "endWithNewline s = rev (dropWhile (\<lambda>c. c = CHR 0x0A) (rev s)) @ NL"

subsection \<open>Go\<close>

fun goRoot :: "string list \<Rightarrow> string \<Rightarrow> string" where
  "goRoot [] b = b"
| "goRoot (typeName # names) b =
     (let fieldName = pluralizeTypeName typeName; jsonKey = lowerFirst fieldName
      in goRoot names
           (b @ TAB @ fieldName @ '' []'' @ typeName @ '' '' @ BQ @ ''json:'' @ DQ @ jsonKey @ DQ @ BQ @ NL))"

fun goFields :: "Field list \<Rightarrow> string \<Rightarrow> string" where
  "goFields [] b = b"
| "goFields (f # flds) b =
     goFields flds
       (b @ TAB @ Name f @ '' '' @ GoType f @ '' '' @ BQ @ ''json:'' @ DQ @ RawName f @ DQ @ BQ @ NL)"

fun goTypes :: "(string \<rightharpoonup> Field list) \<Rightarrow> string list \<Rightarrow> string \<Rightarrow> string" where
  "goTypes typeFields [] b = b"
| "goTypes typeFields (typeName # names) b =
     goTypes typeFields names
       (goFields (fieldsOf typeFields typeName) (b @ ''type '' @ typeName @ '' struct {'' @ NL)
        @ ''}'' @ NL @ NL)"

definition generateGoBundle ::
  "string \<Rightarrow> string \<Rightarrow> string list \<Rightarrow> (string \<rightharpoonup> Field list) \<Rightarrow> error + string" where
  "generateGoBundle pkg rootName typeNames typeFields =
     (let b0 = ''package '' @ pkg @ NL @ NL @ ''type '' @ rootName @ '' struct {'' @ NL;
          b1 = goRoot typeNames b0 @ ''}'' @ NL @ NL;
          b2 = goTypes typeFields typeNames b1
      in Inr (endWithNewline b2))"

subsection \<open>C#\<close>

fun csRoot :: "string list \<Rightarrow> string \<Rightarrow> string" where
  "csRoot [] b = b"
| "csRoot (typeName # names) b =
     (let fieldName = pluralizeTypeName typeName; jsonKey = lowerFirst fieldName
      in csRoot names
           (b @ ''    [JsonPropertyName('' @ DQ @ jsonKey @ DQ @ '')]'' @ NL
              @ ''    public List<'' @ typeName @ ''> '' @ fieldName @ '' { get; set; }'' @ NL @ NL))"

fun csFields :: "Field list \<Rightarrow> string \<Rightarrow> error + string" where
  "csFields [] b = Inr b"
| "csFields (f # flds) b =
     (case mapCSType (RawType f) of
        None \<Rightarrow> Inl (UnsupportedTypeError (RawType f))
      | Some csType \<Rightarrow>
          csFields flds
            (b @ ''    [JsonPropertyName('' @ DQ @ RawName f @ DQ @ '')]'' @ NL
               @ ''    public '' @ csType @ '' '' @ Name f @ '' { get; set; }'' @ NL @ NL))"

fun csTypes :: "(string \<rightharpoonup> Field list) \<Rightarrow> string list \<Rightarrow> string \<Rightarrow> error + string" where
  "csTypes typeFields [] b = Inr b"
| "csTypes typeFields (typeName # names) b =
     (case csFields (fieldsOf typeFields typeName) (b @ ''public class '' @ typeName @ NL @ ''{'' @ NL) of
        Inl err \<Rightarrow> Inl err
      | Inr b' \<Rightarrow> csTypes typeFields names (b' @ ''}'' @ NL @ NL))"

definition generateCSBundle ::
  "string \<Rightarrow> string list \<Rightarrow> (string \<rightharpoonup> Field list) \<Rightarrow> error + string" where
  "generateCSBundle rootName typeNames typeFields =
     (let b0 = ''using System.Collections.Generic;'' @ NL
               @ ''using System.Text.Json.Serialization;'' @ NL @ NL
               @ ''public class '' @ rootName @ NL @ ''{'' @ NL;
          b1 = csRoot typeNames b0 @ ''}'' @ NL @ NL
      in case csTypes typeFields typeNames b1 of
           Inl err \<Rightarrow> Inl err
         | Inr b2 \<Rightarrow> Inr (endWithNewline b2))"

subsection \<open>TypeScript\<close>

fun tsFields :: "Field list \<Rightarrow> string \<Rightarrow> error + string" where
  "tsFields [] b = Inr b"
| "tsFields (f # flds) b =
     (case mapTSType (RawType f) of
        None \<Rightarrow> Inl (UnsupportedTypeError (RawType f))
      | Some tsType \<Rightarrow> tsFields flds (b @ ''  '' @ RawName f @ '': '' @ tsType @ '';'' @ NL))"

fun tsTypes :: "(string \<rightharpoonup> Field list) \<Rightarrow> string list \<Rightarrow> string \<Rightarrow> error + string" where
  "tsTypes typeFields [] b = Inr b"
| "tsTypes typeFields (typeName # names) b =
     (case tsFields (fieldsOf typeFields typeName) (b @ ''export interface '' @ typeName @ '' {'' @ NL) of
        Inl err \<Rightarrow> Inl err
      | Inr b' \<Rightarrow> tsTypes typeFields names (b' @ ''}'' @ NL @ NL))"

fun tsRoot :: "string list \<Rightarrow> string \<Rightarrow> string" where
  "tsRoot [] b = b"
| "tsRoot (typeName # names) b =
     (let fieldName = pluralizeTypeName typeName; jsonKey = lowerFirst fieldName
      in tsRoot names (b @ ''  '' @ jsonKey @ '': '' @ typeName @ ''[];'' @ NL))"

definition generateTSBundle ::
  "string \<Rightarrow> string list \<Rightarrow> (string \<rightharpoonup> Field list) \<Rightarrow> error + string" where
  "generateTSBundle rootName typeNames typeFields =
     (case tsTypes typeFields typeNames [] of
        Inl err \<Rightarrow> Inl err
      | Inr b1 \<Rightarrow>
          Inr (tsRoot typeNames (b1 @ ''export interface '' @ rootName @ '' {'' @ NL) @ ''}'' @ NL))"

text \<open>
  The first field, in the order the emitters visit them, whose raw type the table \<open>mapper\<close>
  does not hold.
\<close>

definition unsupportedBy ::
  "(string \<Rightarrow> string option) \<Rightarrow> (string \<rightharpoonup> Field list) \<Rightarrow> string list \<Rightarrow> Field option" where
  "unsupportedBy mapper typeFields typeNames =
     find (\<lambda>f. mapper (RawType f) = None) (concat (map (fieldsOf typeFields) typeNames))"

subsection \<open>The text of a bundle, line by line\<close>

text \<open>
  What each emitter writes for one type name in the root declaration, for one field, and
  for one type; the theorems on the emitters state their output in these terms.  In the
  lines of C# and TypeScript the type is the one the emitter's own table gives for the
  raw type of the field (the line is empty when the table holds none, a case in which
  the emitter has already failed); in the line of Go it is the \<open>GoType\<close> stored in the
  field.
\<close>

definition goRootLine :: "string \<Rightarrow> string" where
  "goRootLine typeName =
     TAB @ pluralizeTypeName typeName @ '' []'' @ typeName @ '' '' @ BQ @ ''json:'' @ DQ
       @ lowerFirst (pluralizeTypeName typeName) @ DQ @ BQ @ NL"

definition goFieldLine :: "Field \<Rightarrow> string" where
  "goFieldLine f =
     TAB @ Name f @ '' '' @ GoType f @ '' '' @ BQ @ ''json:'' @ DQ @ RawName f @ DQ @ BQ @ NL"

definition goTypeDecl :: "(string \<rightharpoonup> Field list) \<Rightarrow> string \<Rightarrow> string" where
  "goTypeDecl typeFields typeName =
     ''type '' @ typeName @ '' struct {'' @ NL
       @ concat (map goFieldLine (fieldsOf typeFields typeName)) @ ''}'' @ NL @ NL"

definition csRootLine :: "string \<Rightarrow> string" where
  "csRootLine typeName =
     ''    [JsonPropertyName('' @ DQ @ lowerFirst (pluralizeTypeName typeName) @ DQ @ '')]'' @ NL
       @ ''    public List<'' @ typeName @ ''> '' @ pluralizeTypeName typeName
       @ '' { get; set; }'' @ NL @ NL"

definition csFieldLine :: "Field \<Rightarrow> string" where
  "csFieldLine f =
     (case mapCSType (RawType f) of
        None \<Rightarrow> []
      | Some csType \<Rightarrow>
          ''    [JsonPropertyName('' @ DQ @ RawName f @ DQ @ '')]'' @ NL
            @ ''    public '' @ csType @ '' '' @ Name f @ '' { get; set; }'' @ NL @ NL)"

definition csTypeDecl :: "(string \<rightharpoonup> Field list) \<Rightarrow> string \<Rightarrow> string" where
  "csTypeDecl typeFields typeName =
     ''public class '' @ typeName @ NL @ ''{'' @ NL
       @ concat (map csFieldLine (fieldsOf typeFields typeName)) @ ''}'' @ NL @ NL"

definition tsRootLine :: "string \<Rightarrow> string" where
  "tsRootLine typeName =
     ''  '' @ lowerFirst (pluralizeTypeName typeName) @ '': '' @ typeName @ ''[];'' @ NL"

definition tsFieldLine :: "Field \<Rightarrow> string" where
  "tsFieldLine f =
     (case mapTSType (RawType f) of
        None \<Rightarrow> []
      | Some tsType \<Rightarrow> ''  '' @ RawName f @ '': '' @ tsType @ '';'' @ NL)"

definition tsTypeDecl :: "(string \<rightharpoonup> Field list) \<Rightarrow> string \<Rightarrow> string" where
  "tsTypeDecl typeFields typeName =
     ''export interface '' @ typeName @ '' {'' @ NL
       @ concat (map tsFieldLine (fieldsOf typeFields typeName)) @ ''}'' @ NL @ NL"

section \<open>Example inputs\<close>

text \<open>A float parser that accepts nothing, and a sheet with a two-row header.\<close>

definition noFloat :: "string \<Rightarrow> float64 option" where
  "noFloat s = None"

definition itemRows :: "string list list" where
  "itemRows = [[''id'', ''count''], [''cid#int'', ''count#int''], [''1'', ''5'']]"

definition verticalRows :: "string list list" where
  "verticalRows = [['' 2 '', ''x''], [''id'', ''#''], [''cid#int'', ''n#string'']]"

definition fooField :: Field where
  "fooField = \<lparr>RawName = ''cid'', Name = ''Cid'', RawType = ''foo'', GoType = ''int'',
                Col = 0, Flag = FieldFlagAll, Exported = True, IsComment = False\<rparr>"

definition intField :: Field where
  "intField = \<lparr>RawName = ''cid'', Name = ''Cid'', RawType = ''int'', GoType = ''int'',
                Col = 0, Flag = FieldFlagAll, Exported = True, IsComment = False\<rparr>"

text \<open>A define row with a field for all, a server-only and a client-only field.\<close>

definition visRows :: "string list list" where
  "visRows = [[''id''], [''cid#int'', ''hp#int,s'', ''icon#string,c'']]"

definition cidField :: Field where
  "cidField = \<lparr>RawName = ''cid'', Name = ''Cid'', RawType = ''int'', GoType = ''int'',
                Col = 0, Flag = FieldFlagAll, Exported = True, IsComment = False\<rparr>"

definition hpField :: Field where
  "hpField = \<lparr>RawName = ''hp'', Name = ''Hp'', RawType = ''int'', GoType = ''int'',
               Col = 1, Flag = FieldFlagServer, Exported = True, IsComment = False\<rparr>"

definition iconField :: Field where
  "iconField = \<lparr>RawName = ''icon'', Name = ''Icon'', RawType = ''string'', GoType = ''string'',
                 Col = 2, Flag = FieldFlagClient, Exported = True, IsComment = False\<rparr>"

text \<open>A sheet whose define row names the field \<open>a\<close> twice, with one data row.\<close>

definition dupRows :: "string list list" where
  "dupRows = [[''a#int'', ''a#string'', ''b#int''], [''1'', ''x'', ''2'']]"

definition dupFields :: "Field list" where
  "dupFields =
     [\<lparr>RawName = ''a'', Name = ''A'', RawType = ''int'', GoType = ''int'',
       Col = 0, Flag = FieldFlagAll, Exported = True, IsComment = False\<rparr>,
      \<lparr>RawName = ''a'', Name = ''A'', RawType = ''string'', GoType = ''string'',
       Col = 1, Flag = FieldFlagAll, Exported = True, IsComment = False\<rparr>,
      \<lparr>RawName = ''b'', Name = ''B'', RawType = ''int'', GoType = ''int'',
       Col = 2, Flag = FieldFlagAll, Exported = True, IsComment = False\<rparr>]"

section \<open>Properties of the string functions\<close>

lemma HasPrefix_single: "HasPrefix s [c] = (s \<noteq> [] \<and> hd s = c)"
  by (cases s) auto

lemma Contains_single: "Contains s [c] = (c \<in> set s)"
  by (induction s) (auto simp: HasPrefix_single)

lemma rowHasFieldDefs_iff: "rowHasFieldDefs row = (\<exists>c\<in>set row. CHR ''#'' \<in> set c)"
  by (induction row) (auto simp: Contains_single)

section \<open>Properties of the name transforms\<close>

lemma byte_char_of: "byte (char_of (n::nat)) = n mod 256"
  by (simp add: byte_def)

lemma byte_eq_iff: "(byte c = byte d) = (c = d)"
  by (simp add: byte_def)

lemma byte_less_256: "byte c < 256"
  by (simp add: byte_def)

lemma byte_asciiUpper: "byte (asciiUpper c) = (if inRange 97 122 c then byte c - 32 else byte c)"
proof (cases "inRange 97 122 c")
  case True
  then have "byte c - 32 < 256" unfolding inRange_def by arith
  then have "(byte c - 32) mod 256 = byte c - 32" by simp
  then show ?thesis using True by (simp add: asciiUpper_def byte_char_of)
next
  case False
  then show ?thesis by (simp add: asciiUpper_def)
qed

lemma byte_asciiLower: "byte (asciiLower c) = (if inRange 65 90 c then byte c + 32 else byte c)"
proof (cases "inRange 65 90 c")
  case True
  then have "(byte c + 32) mod 256 = byte c + 32" by (simp add: inRange_def)
  then show ?thesis using True by (simp add: asciiLower_def byte_char_of)
next
  case False
  then show ?thesis by (simp add: asciiLower_def)
qed

lemma isNameSep_byte: "isNameSep c = (byte c = 95 \<or> byte c = 45)"
proof -
  have "byte (CHR ''_'') = 95" "byte (CHR ''-'') = 45" by (simp_all add: byte_def)
  then have "(c = CHR ''_'') = (byte c = 95)" "(c = CHR ''-'') = (byte c = 45)"
    using byte_eq_iff [of c "CHR ''_''"] byte_eq_iff [of c "CHR ''-''"] by simp_all
  then show ?thesis by (simp add: isNameSep_def)
qed

lemma asciiUpper_idem: "asciiUpper (asciiUpper c) = asciiUpper c"
proof -
  have "\<not> inRange 97 122 (asciiUpper c)"
    unfolding inRange_def byte_asciiUpper by (simp split: if_splits; arith)
  then show ?thesis using asciiUpper_def [of "asciiUpper c"] by simp
qed

lemma isNameSep_asciiUpper: "isNameSep (asciiUpper c) = isNameSep c"
  unfolding isNameSep_byte byte_asciiUpper inRange_def by (simp split: if_splits; arith)

lemma isNameSep_asciiLower: "isNameSep (asciiLower c) = isNameSep c"
  unfolding isNameSep_byte byte_asciiLower inRange_def by (simp split: if_splits; arith)

lemma ascii_asciiUpper: "byte c < 128 \<Longrightarrow> byte (asciiUpper c) < 128"
  unfolding byte_asciiUpper inRange_def by (simp split: if_splits; arith)

lemma ascii_asciiLower: "byte c < 128 \<Longrightarrow> byte (asciiLower c) < 128"
  unfolding byte_asciiLower inRange_def by (simp split: if_splits; arith)

lemma mapRunes_ascii: "isASCII s \<Longrightarrow> mapRunes f folds s = map f s"
  by (induction s) (auto simp: isASCII_def)

lemma ContainsAny_sep: "ContainsAny s ''_-'' = (\<exists>c\<in>set s. isNameSep c)"
  by (auto simp: ContainsAny_def list_ex_iff isNameSep_def)

lemma fieldsAcc_all:
  "list_all (\<lambda>c. \<not> f c) cur \<Longrightarrow>
   list_all (\<lambda>p. p \<noteq> [] \<and> list_all (\<lambda>c. \<not> f c) p) (fieldsAcc f cur s)"
  by (induction s arbitrary: cur) simp_all

lemma fieldsAcc_parts:
  "\<forall>c\<in>set cur. \<not> f c \<Longrightarrow> \<forall>p\<in>set (fieldsAcc f cur s). p \<noteq> [] \<and> (\<forall>c\<in>set p. \<not> f c)"
  using fieldsAcc_all [of f cur s] unfolding list_all_iff by blast

lemma fieldsAcc_subset:
  "\<forall>p\<in>set (fieldsAcc f cur s). set p \<subseteq> set cur \<union> set s"
proof (induction s arbitrary: cur)
  case Nil
  then show ?case by simp
next
  case (Cons a s)
  show ?case
  proof (cases "f a")
    case True
    then show ?thesis using Cons [of "[]"] by auto
  next
    case False
    then show ?thesis using Cons [of "cur @ [a]"] by auto
  qed
qed

lemma FieldsFunc_parts:
  "p \<in> set (FieldsFunc f s) \<Longrightarrow> p \<noteq> [] \<and> (\<forall>c\<in>set p. \<not> f c) \<and> set p \<subseteq> set s"
  using fieldsAcc_parts [of "[]" f s] fieldsAcc_subset [of f "[]" s]
  by (auto simp: FieldsFunc_def)

lemma capitalize_ascii:
  assumes "isASCII p" "p \<noteq> []"
  shows "capitalize p = asciiUpper (hd p) # map asciiLower (tl p)"
proof -
  obtain a t where p: "p = a # t" using assms(2) by (cases p) auto
  with assms(1) have "isASCII [a]" "isASCII t" by (auto simp: isASCII_def)
  then show ?thesis
    by (simp add: capitalize_def p ToUpper_def ToLower_def mapRunes_ascii del: mapRunes.simps)
qed

lemma exportName_plain:
  assumes "isASCII s" "s \<noteq> []" "\<forall>c\<in>set s. \<not> isNameSep c"
  shows "exportName s = asciiUpper (hd s) # tl s"
proof -
  obtain a t where p: "s = a # t" using assms(2) by (cases s) auto
  with assms(1) have "isASCII [a]" by (auto simp: isASCII_def)
  then show ?thesis using assms(3)
    by (simp add: exportName_def p ToUpper_def mapRunes_ascii ContainsAny_sep del: mapRunes.simps)
qed

text \<open>The result of the transform on ASCII input: empty, or an ASCII string without
  separators whose first character is already in upper case.\<close>

definition exported :: "string \<Rightarrow> bool" where
  "exported r = (r = [] \<or> (isASCII r \<and> (\<forall>c\<in>set r. \<not> isNameSep c) \<and> asciiUpper (hd r) = hd r))"

lemma exported_fixed: "exported r \<Longrightarrow> exportName r = r"
proof (cases r)
  case Nil
  then show ?thesis by (simp add: exportName_def)
next
  case (Cons a t)
  assume "exported r"
  then show ?thesis using exportName_plain [of r] by (simp add: exported_def Cons)
qed

lemma isASCII_map_lower: "isASCII t \<Longrightarrow> isASCII (map asciiLower t)"
  by (simp add: isASCII_def list_all_iff ascii_asciiLower)

lemma capitalize_exported:
  assumes "isASCII p" "p \<noteq> []" "\<forall>c\<in>set p. \<not> isNameSep c"
  shows "capitalize p \<noteq> [] \<and> isASCII (capitalize p) \<and> (\<forall>c\<in>set (capitalize p). \<not> isNameSep c)
         \<and> asciiUpper (hd (capitalize p)) = hd (capitalize p)"
proof -
  obtain a t where p: "p = a # t" using assms(2) by (cases p) auto
  have "byte (asciiUpper a) < 128" using assms(1) by (simp add: p isASCII_def ascii_asciiUpper)
  moreover have "isASCII (map asciiLower t)" using assms(1) isASCII_map_lower [of t] by (simp add: p isASCII_def)
  moreover have "capitalize p = asciiUpper a # map asciiLower t"
    using capitalize_ascii [OF assms(1,2)] by (simp add: p)
  ultimately show ?thesis using assms(3)
    by (auto simp: p isASCII_def asciiUpper_idem isNameSep_asciiUpper isNameSep_asciiLower)
qed

lemma concat_exported:
  assumes "\<forall>p\<in>set ps. p \<noteq> [] \<and> isASCII p \<and> (\<forall>c\<in>set p. \<not> isNameSep c)"
  shows "exported (concat (map capitalize ps))"
proof (cases ps)
  case Nil
  then show ?thesis by (simp add: exported_def)
next
  case (Cons p qs)
  have all: "\<forall>q\<in>set ps. capitalize q \<noteq> [] \<and> isASCII (capitalize q) \<and> (\<forall>c\<in>set (capitalize q). \<not> isNameSep c)"
    using assms capitalize_exported by blast
  have "asciiUpper (hd (capitalize p)) = hd (capitalize p)" "capitalize p \<noteq> []"
    using assms capitalize_exported [of p] Cons by auto
  moreover have "isASCII (concat (map capitalize ps))"
    using all by (auto simp: isASCII_def list_all_iff)
  moreover have "\<forall>c\<in>set (concat (map capitalize ps)). \<not> isNameSep c"
    using all by auto
  ultimately show ?thesis by (auto simp: exported_def Cons)
qed

lemma exportName_exported: "isASCII s \<Longrightarrow> exported (exportName s)"
proof (cases "s = []")
  case True
  then show ?thesis by (simp add: exportName_def exported_def)
next
  case False
  assume a: "isASCII s"
  show ?thesis
  proof (cases "\<exists>c\<in>set s. isNameSep c")
    case True
    have "\<forall>p\<in>set (FieldsFunc isNameSep s). p \<noteq> [] \<and> isASCII p \<and> (\<forall>c\<in>set p. \<not> isNameSep c)"
      using FieldsFunc_parts [of _ isNameSep s] a by (auto simp: isASCII_def list_all_iff)
    then show ?thesis using True False
      by (simp add: exportName_def ContainsAny_sep concat_exported)
  next
    case False
    with \<open>s \<noteq> []\<close> a have "exportName s = asciiUpper (hd s) # tl s"
      by (simp add: exportName_plain)
    moreover obtain c t where "s = c # t" using \<open>s \<noteq> []\<close> by (cases s) auto
    ultimately show ?thesis using a False 
      by (auto simp: exported_def isASCII_def ascii_asciiUpper asciiUpper_idem isNameSep_asciiUpper)
  qed
qed

lemma exportName_idempotent_ascii: "isASCII s \<Longrightarrow> exportName (exportName s) = exportName s"
  by (simp add: exportName_exported exported_fixed)


lemma exportName_examples:
  "exportName ''data_id'' = ''DataId'' \<and> exportName ''DataId'' = ''DataId''
   \<and> exportName ''DATA_ID'' = ''DataId'' \<and> exportName ''cid'' = ''Cid''"
  by code_simp

section \<open>Re-applying the exported-name transform\<close>

text \<open>
  C9.  The claim is that the exported-name transform is idempotent on every string.  On
  ASCII strings it is (\<open>exportName_idempotent_ascii\<close> above; \<open>data_id\<close> gives \<open>DataId\<close>, which
  gives \<open>DataId\<close>).  The transform cuts its argument after the first byte, though, not
  after the first character: for a name that starts with a character outside ASCII, such
  as the two-byte \<open>U+00E9\<close>, \<open>name[:1]\<close> is half a character, \<open>strings.ToUpper\<close> replaces it
  by \<open>U+FFFD\<close>, and the rest of the character stays behind.  The result starts with the
  three bytes of \<open>U+FFFD\<close>, so a second application mangles it again, and the two results
  differ.
\<close>

theorem exportName_reapplied_outside_ascii:
  "exportName [CHR 0xC3, CHR 0xA9] = [CHR 0xEF, CHR 0xBF, CHR 0xBD, CHR 0xA9]
   \<and> exportName (exportName [CHR 0xC3, CHR 0xA9])
       = [CHR 0xEF, CHR 0xBF, CHR 0xBD, CHR 0xBF, CHR 0xBD, CHR 0xA9]
   \<and> exportName (exportName [CHR 0xC3, CHR 0xA9]) \<noteq> exportName [CHR 0xC3, CHR 0xA9]"
  by code_simp

section \<open>Header detection: the three cases\<close>

text \<open>
  C3.  Header detection checks three cases in a fixed order, and the first that matches
  wins.  With at least three rows and a \<open>#\<close> in some cell of row index 2, the header has 3
  rows, the define row is row 3 and the orientation is vertical exactly when the trimmed
  cell at row 0, column 0 is \<open>2\<close> (a missing cell, an empty one, \<open>1\<close> or anything else gives
  horizontal).  Otherwise, with at least two rows and a \<open>#\<close> in row index 1: 2 rows,
  horizontal, define row 2.  Otherwise, with at least one row and a \<open>#\<close> in row index 0:
  1 row, horizontal, define row 1.  Otherwise detection fails with
  \<open>HeaderDetectionError\<close>.
\<close>

theorem detectHeaderSpec_precedence:
  "detectHeaderSpec rows =
     (if 3 \<le> length rows \<and> (\<exists>c\<in>set (rows ! 2). CHR ''#'' \<in> set c) then
        Inr \<lparr>HeaderRows = 3,
             Orientation = (if rows ! 0 \<noteq> [] \<and> TrimSpace (hd (rows ! 0)) = ''2''
                            then OrientationVertical else OrientationHorizontal),
             DefineRow = 3\<rparr>
      else if 2 \<le> length rows \<and> (\<exists>c\<in>set (rows ! 1). CHR ''#'' \<in> set c) then
        Inr \<lparr>HeaderRows = 2, Orientation = OrientationHorizontal, DefineRow = 2\<rparr>
      else if 1 \<le> length rows \<and> (\<exists>c\<in>set (rows ! 0). CHR ''#'' \<in> set c) then
        Inr \<lparr>HeaderRows = 1, Orientation = OrientationHorizontal, DefineRow = 1\<rparr>
      else Inl HeaderDetectionError)"
  by (simp add: detectHeaderSpec_def rowHasFieldDefs_iff hd_conv_nth Let_def)

theorem detectHeaderSpec_precedence_witness:
  "detectHeaderSpec [['' 2 '', ''x''], [''id'', ''#''], [''cid#int'', ''n#string'']]
     = Inr \<lparr>HeaderRows = 3, Orientation = OrientationVertical, DefineRow = 3\<rparr>
   \<and> detectHeaderSpec [[''1''], [''#''], [''cid#int'']]
     = Inr \<lparr>HeaderRows = 3, Orientation = OrientationHorizontal, DefineRow = 3\<rparr>
   \<and> detectHeaderSpec [[''2''], [''cid#int''], [''1'']]
     = Inr \<lparr>HeaderRows = 2, Orientation = OrientationHorizontal, DefineRow = 2\<rparr>
   \<and> detectHeaderSpec [[''cid#int''], [''1'']]
     = Inr \<lparr>HeaderRows = 1, Orientation = OrientationHorizontal, DefineRow = 1\<rparr>
   \<and> detectHeaderSpec [[''2''], [''1'']] = Inl HeaderDetectionError"
proof -
  have t: "TrimSpace '' 2 '' = ''2''" "TrimSpace ''1'' \<noteq> ''2''"
    by code_simp+
  show ?thesis
    using t
      detectHeaderSpec_precedence [of "[['' 2 '', ''x''], [''id'', ''#''], [''cid#int'', ''n#string'']]"]
      detectHeaderSpec_precedence [of "[[''1''], [''#''], [''cid#int'']]"]
      detectHeaderSpec_precedence [of "[[''2''], [''cid#int''], [''1'']]"]
      detectHeaderSpec_precedence [of "[[''cid#int''], [''1'']]"]
      detectHeaderSpec_precedence [of "[[''2''], [''1'']]"]
    by simp
qed

section \<open>Registration of sheets\<close>

lemma addSheetWith_Inr:
  "addSheetWith p r agg origin name rows = Inr agg' \<Longrightarrow>
     seenKeys agg (jsonKeyOf name) = None \<and> exportName name \<noteq> [] \<and>
     seenKeys agg' = (seenKeys agg)(jsonKeyOf name \<mapsto> origin) \<and>
     orderedTypeNames agg' = orderedTypeNames agg @ [exportName name]"
  by (auto simp: addSheetWith_def jsonKeyOf_def Let_def split: sum.splits if_splits option.splits)

lemma addSheetWith_duplicate:
  "addSheetWith p r agg0 origin name rows = Inr a0 \<Longrightarrow> seenKeys agg (jsonKeyOf name) = Some prev \<Longrightarrow>
   addSheetWith p r agg origin name rows = Inl (DuplicateKeyError (jsonKeyOf name) origin prev)"
  by (auto simp: addSheetWith_def jsonKeyOf_def Let_def split: sum.splits if_splits option.splits)

lemma addSheetWith_fresh:
  "addSheetWith p r agg0 origin name rows = Inr a0 \<Longrightarrow> seenKeys agg (jsonKeyOf name) = None \<Longrightarrow>
   \<exists>agg'. addSheetWith p r agg origin name rows = Inr agg'"
  by (auto simp: addSheetWith_def jsonKeyOf_def Let_def split: sum.splits if_splits option.splits)

lemma addSheetWith_vertical:
  "detectHeaderSpec rows = Inr spec \<Longrightarrow> Orientation spec = OrientationVertical \<Longrightarrow>
   addSheetWith p r agg origin name rows = Inl (UnsupportedOrientationError origin)"
  by (simp add: addSheetWith_def)

lemma addSheet_Inr:
  "addSheet pf ef agg origin name rows = Inr agg' \<Longrightarrow>
     seenKeys agg (jsonKeyOf name) = None \<and> exportName name \<noteq> [] \<and>
     seenKeys agg' = (seenKeys agg)(jsonKeyOf name \<mapsto> origin) \<and>
     orderedTypeNames agg' = orderedTypeNames agg @ [exportName name]"
  unfolding addSheet_def by (rule addSheetWith_Inr)

lemma addSheet_duplicate:
  "addSheet pf ef agg0 origin name rows = Inr a0 \<Longrightarrow> seenKeys agg (jsonKeyOf name) = Some prev \<Longrightarrow>
   addSheet pf ef agg origin name rows = Inl (DuplicateKeyError (jsonKeyOf name) origin prev)"
  unfolding addSheet_def by (rule addSheetWith_duplicate)

lemma addSheet_fresh:
  "addSheet pf ef agg0 origin name rows = Inr a0 \<Longrightarrow> seenKeys agg (jsonKeyOf name) = None \<Longrightarrow>
   \<exists>agg'. addSheet pf ef agg origin name rows = Inr agg'"
  unfolding addSheet_def by (rule addSheetWith_fresh)

lemma addSheets_keys:
  "addSheets pf ef agg sheets = Inr final \<Longrightarrow>
     distinct (map (\<lambda>(origin, name, rows). jsonKeyOf name) sheets)
     \<and> (\<forall>(origin, name, rows)\<in>set sheets. seenKeys agg (jsonKeyOf name) = None
            \<and> seenKeys final (jsonKeyOf name) = Some origin)
     \<and> (\<forall>k. seenKeys agg k \<noteq> None \<longrightarrow> seenKeys final k = seenKeys agg k)"
proof (induction sheets arbitrary: agg)
  case Nil
  then show ?case by simp
next
  case (Cons sh sheets)
  obtain origin name rows where sh: "sh = (origin, name, rows)" by (cases sh) auto
  obtain agg1 where step: "addSheet pf ef agg origin name rows = Inr agg1"
    and rest: "addSheets pf ef agg1 sheets = Inr final"
    using Cons.prems by (auto simp: sh split: sum.splits)
  have s1: "seenKeys agg (jsonKeyOf name) = None"
    and s2: "seenKeys agg1 = (seenKeys agg)(jsonKeyOf name \<mapsto> origin)"
    using addSheet_Inr [OF step] by auto
  note ih = Cons.IH [OF rest]
  have keep: "seenKeys final (jsonKeyOf name) = Some origin"
    using ih s2 by auto
  have notin: "jsonKeyOf name \<notin> set (map (\<lambda>(origin, name, rows). jsonKeyOf name) sheets)"
    using ih s2 by (auto split: prod.splits)
  have old: "\<forall>(o', n', r')\<in>set sheets. seenKeys agg (jsonKeyOf n') = None"
    using ih s2 by (auto split: if_splits)
  have pres: "\<forall>k. seenKeys agg k \<noteq> None \<longrightarrow> seenKeys final k = seenKeys agg k"
    using ih s1 s2 by (metis fun_upd_apply)
  show ?case using ih s1 keep notin old pres by (auto simp: sh)
qed

text \<open>
  C2.  A sheet is registered under the key \<open>jsonKeyOf\<close> of its name.  When \<open>addSheet\<close>
  succeeds, that key was not registered before and is registered now, to the sheet's
  origin.  When a sheet that is accepted on its own reaches an aggregate in which its key
  is registered to \<open>prev\<close>, \<open>addSheet\<close> fails with \<open>DuplicateKeyError\<close> naming the key, the
  sheet's origin and \<open>prev\<close>.  Two sheets that are each accepted on their own and have the
  same key therefore fail with \<open>DuplicateKeyError\<close> in either order, the error naming the
  later origin first and the earlier second.  After a run that accepts all its sheets,
  their keys are pairwise distinct and each is registered to its sheet's origin.
\<close>

theorem jsonKey_registration:
  "(addSheet pf ef agg origin name rows = Inr agg' \<longrightarrow>
      seenKeys agg (jsonKeyOf name) = None
      \<and> seenKeys agg' = (seenKeys agg)(jsonKeyOf name \<mapsto> origin))
   \<and> (addSheet pf ef emptyAggregate origin name rows = Inr alone
       \<and> seenKeys agg (jsonKeyOf name) = Some prev \<longrightarrow>
      addSheet pf ef agg origin name rows = Inl (DuplicateKeyError (jsonKeyOf name) origin prev))
   \<and> (addSheet pf ef emptyAggregate oa na ra = Inr alone_a
       \<and> addSheet pf ef emptyAggregate ob nb rb = Inr alone_b
       \<and> jsonKeyOf na = jsonKeyOf nb \<and> seenKeys agg (jsonKeyOf na) = None \<longrightarrow>
      addSheets pf ef agg [(oa, na, ra), (ob, nb, rb)]
        = Inl (DuplicateKeyError (jsonKeyOf na) ob oa)
      \<and> addSheets pf ef agg [(ob, nb, rb), (oa, na, ra)]
        = Inl (DuplicateKeyError (jsonKeyOf na) oa ob))
   \<and> (addSheets pf ef emptyAggregate sheets = Inr final \<longrightarrow>
      distinct (map (\<lambda>(origin, name, rows). jsonKeyOf name) sheets)
      \<and> (\<forall>(origin, name, rows)\<in>set sheets. seenKeys final (jsonKeyOf name) = Some origin))"
proof (intro conjI impI)
  assume "addSheet pf ef agg origin name rows = Inr agg'"
  then show "seenKeys agg (jsonKeyOf name) = None"
    and "seenKeys agg' = (seenKeys agg)(jsonKeyOf name \<mapsto> origin)"
    using addSheet_Inr by blast+
next
  assume "addSheet pf ef emptyAggregate origin name rows = Inr alone
          \<and> seenKeys agg (jsonKeyOf name) = Some prev"
  then show "addSheet pf ef agg origin name rows = Inl (DuplicateKeyError (jsonKeyOf name) origin prev)"
    using addSheet_duplicate by blast
next
  assume h: "addSheet pf ef emptyAggregate oa na ra = Inr alone_a
       \<and> addSheet pf ef emptyAggregate ob nb rb = Inr alone_b
       \<and> jsonKeyOf na = jsonKeyOf nb \<and> seenKeys agg (jsonKeyOf na) = None"
  then have ha: "addSheet pf ef emptyAggregate oa na ra = Inr alone_a"
    and hb: "addSheet pf ef emptyAggregate ob nb rb = Inr alone_b"
    and key: "jsonKeyOf na = jsonKeyOf nb"
    and fresh: "seenKeys agg (jsonKeyOf na) = None" by blast+
  obtain agga where a: "addSheet pf ef agg oa na ra = Inr agga"
    using addSheet_fresh [OF ha fresh] by blast
  have "seenKeys agga (jsonKeyOf nb) = Some oa"
    using addSheet_Inr [OF a] key by simp
  then have "addSheet pf ef agga ob nb rb = Inl (DuplicateKeyError (jsonKeyOf nb) ob oa)"
    by (rule addSheet_duplicate [OF hb])
  then show "addSheets pf ef agg [(oa, na, ra), (ob, nb, rb)]
        = Inl (DuplicateKeyError (jsonKeyOf na) ob oa)"
    using a key by simp
  obtain aggb where b: "addSheet pf ef agg ob nb rb = Inr aggb"
    using addSheet_fresh [OF hb] fresh key by auto
  have "seenKeys aggb (jsonKeyOf na) = Some ob"
    using addSheet_Inr [OF b] key by simp
  then have "addSheet pf ef aggb oa na ra = Inl (DuplicateKeyError (jsonKeyOf na) oa ob)"
    by (rule addSheet_duplicate [OF ha])
  then show "addSheets pf ef agg [(ob, nb, rb), (oa, na, ra)]
        = Inl (DuplicateKeyError (jsonKeyOf na) oa ob)"
    using b by simp
next
  assume f: "addSheets pf ef emptyAggregate sheets = Inr final"
  show "distinct (map (\<lambda>(origin, name, rows). jsonKeyOf name) sheets)"
    using addSheets_keys [OF f] by simp
  show "\<forall>(origin, name, rows)\<in>set sheets. seenKeys final (jsonKeyOf name) = Some origin"
    using addSheets_keys [OF f] by auto
qed

theorem jsonKey_registration_witness:
  "addSheets noFloat '''' emptyAggregate
       [(''a.xlsx[Item]'', ''Item'', itemRows), (''b.tsv'', ''item'', itemRows)]
     = Inl (DuplicateKeyError ''items'' ''b.tsv'' ''a.xlsx[Item]'')
   \<and> addSheets noFloat '''' emptyAggregate
       [(''b.tsv'', ''item'', itemRows), (''a.xlsx[Item]'', ''Item'', itemRows)]
     = Inl (DuplicateKeyError ''items'' ''a.xlsx[Item]'' ''b.tsv'')
   \<and> (\<exists>final. addSheets noFloat '''' emptyAggregate
                  [(''a.xlsx[Item]'', ''Item'', itemRows), (''q.tsv'', ''quest'', itemRows)]
                = Inr final
          \<and> seenKeys final ''items'' = Some ''a.xlsx[Item]''
          \<and> seenKeys final ''quests'' = Some ''q.tsv'')"
proof -
  have "\<not> isl (addSheet noFloat '''' emptyAggregate ''a.xlsx[Item]'' ''Item'' itemRows)"
    by code_simp
  then obtain a1 where a: "addSheet noFloat '''' emptyAggregate ''a.xlsx[Item]'' ''Item'' itemRows = Inr a1"
    by (cases "addSheet noFloat '''' emptyAggregate ''a.xlsx[Item]'' ''Item'' itemRows") auto
  have "\<not> isl (addSheet noFloat '''' emptyAggregate ''b.tsv'' ''item'' itemRows)"
    by code_simp
  then obtain b1 where b: "addSheet noFloat '''' emptyAggregate ''b.tsv'' ''item'' itemRows = Inr b1"
    by (cases "addSheet noFloat '''' emptyAggregate ''b.tsv'' ''item'' itemRows") auto
  have "\<not> isl (addSheets noFloat '''' emptyAggregate
                  [(''a.xlsx[Item]'', ''Item'', itemRows), (''q.tsv'', ''quest'', itemRows)])"
    by code_simp
  then obtain final where f: "addSheets noFloat '''' emptyAggregate
      [(''a.xlsx[Item]'', ''Item'', itemRows), (''q.tsv'', ''quest'', itemRows)] = Inr final"
    by (cases "addSheets noFloat '''' emptyAggregate
      [(''a.xlsx[Item]'', ''Item'', itemRows), (''q.tsv'', ''quest'', itemRows)]") auto
  have k: "jsonKeyOf ''Item'' = ''items''" "jsonKeyOf ''item'' = ''items''"
    "jsonKeyOf ''quest'' = ''quests''"
    by code_simp+
  have e: "seenKeys emptyAggregate ''items'' = None"
    by (simp add: emptyAggregate_def)
  show ?thesis
    using a b f k e
      jsonKey_registration [where pf = noFloat and ef = "''''" and agg = emptyAggregate
        and oa = "''a.xlsx[Item]''" and na = "''Item''" and ra = itemRows and alone_a = a1
        and ob = "''b.tsv''" and nb = "''item''" and rb = itemRows and alone_b = b1
        and sheets = "[(''a.xlsx[Item]'', ''Item'', itemRows), (''q.tsv'', ''quest'', itemRows)]"
        and final = final]
    by simp
qed

section \<open>Vertical orientation\<close>

lemma detectHeaderSpec_vertical_iff:
  "(\<exists>spec. detectHeaderSpec rows = Inr spec \<and> Orientation spec = OrientationVertical) =
     (3 \<le> length rows \<and> (\<exists>c\<in>set (rows ! 2). CHR ''#'' \<in> set c)
      \<and> rows ! 0 \<noteq> [] \<and> TrimSpace (hd (rows ! 0)) = ''2'')"
  by (auto simp: detectHeaderSpec_def rowHasFieldDefs_iff hd_conv_nth Let_def)

text \<open>
  C4.  When the header spec detected for a sheet has the vertical orientation, \<open>addSheet\<close>
  fails with \<open>UnsupportedOrientationError\<close> carrying the sheet's origin.  The field parser
  and the row reader have no part in this result: it holds of \<open>addSheetWith\<close> whatever
  functions stand for the two, so neither is consulted.
\<close>

theorem vertical_orientation_aborts:
  assumes "detectHeaderSpec rows = Inr spec" and "Orientation spec = OrientationVertical"
  shows "addSheetWith parse readItems agg origin sheetName rows
           = Inl (UnsupportedOrientationError origin)
         \<and> addSheet parseFloat exportFlag agg origin sheetName rows
           = Inl (UnsupportedOrientationError origin)"
  using assms by (simp add: addSheet_def addSheetWith_vertical)

theorem vertical_orientation_aborts_witness:
  "detectHeaderSpec verticalRows
     = Inr \<lparr>HeaderRows = 3, Orientation = OrientationVertical, DefineRow = 3\<rparr>
   \<and> addSheetWith (\<lambda>rows defineRow. Inr []) (\<lambda>rows start flds. Inr []) emptyAggregate
        ''v.xlsx[Item]'' ''Item'' verticalRows
     = Inl (UnsupportedOrientationError ''v.xlsx[Item]'')
   \<and> addSheet noFloat '''' emptyAggregate ''v.xlsx[Item]'' ''Item'' verticalRows
     = Inl (UnsupportedOrientationError ''v.xlsx[Item]'')"
proof -
  have d: "detectHeaderSpec verticalRows
     = Inr \<lparr>HeaderRows = 3, Orientation = OrientationVertical, DefineRow = 3\<rparr>"
    by code_simp
  show ?thesis
    using d vertical_orientation_aborts [OF d, of "\<lambda>rows defineRow. Inr []" "\<lambda>rows start flds. Inr []"
        emptyAggregate "''v.xlsx[Item]''" "''Item''" noFloat "''''"]
    by simp
qed

section \<open>The emitters and unsupported types\<close>

lemma find_app: "find P (xs @ ys) = (case find P xs of None \<Rightarrow> find P ys | Some x \<Rightarrow> Some x)"
  by (induction xs) auto

lemma find_Some_mem: "find P xs = Some x \<Longrightarrow> P x \<and> x \<in> set xs"
  by (induction xs) (auto split: if_splits)

lemma sum_case_Inl_iff:
  "((case x of Inl err \<Rightarrow> Inl err | Inr b \<Rightarrow> Inr (g b)) = Inl e) = (x = Inl e)"
  by (cases x) auto

lemma unsupportedBy_None_iff:
  "(unsupportedBy mapper typeFields typeNames = None) =
     (\<forall>n\<in>set typeNames. \<forall>f\<in>set (fieldsOf typeFields n). mapper (RawType f) \<noteq> None)"
  by (auto simp: unsupportedBy_def find_None_iff)

lemma unsupportedBy_Some:
  "unsupportedBy mapper typeFields typeNames = Some f \<Longrightarrow>
     mapper (RawType f) = None \<and> (\<exists>n\<in>set typeNames. f \<in> set (fieldsOf typeFields n))"
  by (auto simp: unsupportedBy_def dest!: find_Some_mem)

subsection \<open>C#\<close>

lemma csFields_Inl:
  "find (\<lambda>f. mapCSType (RawType f) = None) fs = Some f \<Longrightarrow>
   csFields fs b = Inl (UnsupportedTypeError (RawType f))"
  by (induction fs arbitrary: b) (auto split: option.splits if_splits)

lemma csFields_Inr:
  "find (\<lambda>f. mapCSType (RawType f) = None) fs = None \<Longrightarrow> \<exists>b'. csFields fs b = Inr b'"
  by (induction fs arbitrary: b) (auto split: option.splits if_splits)

lemma csTypes_Inl:
  "unsupportedBy mapCSType tf names = Some f \<Longrightarrow>
   csTypes tf names b = Inl (UnsupportedTypeError (RawType f))"
proof (induction names arbitrary: b)
  case Nil
  then show ?case by (simp add: unsupportedBy_def)
next
  case (Cons n names)
  show ?case
  proof (cases "find (\<lambda>f. mapCSType (RawType f) = None) (fieldsOf tf n)")
    case None
    then obtain b' where "csFields (fieldsOf tf n) (b @ ''public class '' @ n @ NL @ ''{'' @ NL) = Inr b'"
      using csFields_Inr by blast
    moreover have "unsupportedBy mapCSType tf names = Some f"
      using Cons.prems None by (simp add: unsupportedBy_def find_app)
    ultimately show ?thesis using Cons.IH by simp
  next
    case (Some g)
    then have "g = f" using Cons.prems by (simp add: unsupportedBy_def find_app)
    then show ?thesis using csFields_Inl [OF Some] by simp
  qed
qed

lemma csTypes_Inr:
  "unsupportedBy mapCSType tf names = None \<Longrightarrow> \<exists>b'. csTypes tf names b = Inr b'"
proof (induction names arbitrary: b)
  case Nil
  then show ?case by simp
next
  case (Cons n names)
  have none: "find (\<lambda>f. mapCSType (RawType f) = None) (fieldsOf tf n) = None"
    and rest: "unsupportedBy mapCSType tf names = None"
    using Cons.prems by (auto simp: unsupportedBy_def find_app split: option.splits)
  obtain b' where "csFields (fieldsOf tf n) (b @ ''public class '' @ n @ NL @ ''{'' @ NL) = Inr b'"
    using csFields_Inr [OF none] by blast
  then show ?case using Cons.IH [OF rest] by simp
qed

lemma csTypes_Inl_iff:
  "(csTypes tf names b = Inl e) =
     (\<exists>f. unsupportedBy mapCSType tf names = Some f \<and> e = UnsupportedTypeError (RawType f))"
proof (cases "unsupportedBy mapCSType tf names")
  case None
  then show ?thesis using csTypes_Inr [OF None, of b] by auto
next
  case (Some f)
  then show ?thesis using csTypes_Inl [OF Some, of b] by auto
qed

lemma generateCSBundle_Inl_iff:
  "(generateCSBundle rootName typeNames typeFields = Inl e) =
     (\<exists>f. unsupportedBy mapCSType typeFields typeNames = Some f \<and> e = UnsupportedTypeError (RawType f))"
  unfolding generateCSBundle_def Let_def sum_case_Inl_iff csTypes_Inl_iff ..

subsection \<open>TypeScript\<close>

lemma tsFields_Inl:
  "find (\<lambda>f. mapTSType (RawType f) = None) fs = Some f \<Longrightarrow>
   tsFields fs b = Inl (UnsupportedTypeError (RawType f))"
  by (induction fs arbitrary: b) (auto split: option.splits if_splits)

lemma tsFields_Inr:
  "find (\<lambda>f. mapTSType (RawType f) = None) fs = None \<Longrightarrow> \<exists>b'. tsFields fs b = Inr b'"
  by (induction fs arbitrary: b) (auto split: option.splits if_splits)

lemma tsTypes_Inl:
  "unsupportedBy mapTSType tf names = Some f \<Longrightarrow>
   tsTypes tf names b = Inl (UnsupportedTypeError (RawType f))"
proof (induction names arbitrary: b)
  case Nil
  then show ?case by (simp add: unsupportedBy_def)
next
  case (Cons n names)
  show ?case
  proof (cases "find (\<lambda>f. mapTSType (RawType f) = None) (fieldsOf tf n)")
    case None
    then obtain b' where "tsFields (fieldsOf tf n) (b @ ''export interface '' @ n @ '' {'' @ NL) = Inr b'"
      using tsFields_Inr by blast
    moreover have "unsupportedBy mapTSType tf names = Some f"
      using Cons.prems None by (simp add: unsupportedBy_def find_app)
    ultimately show ?thesis using Cons.IH by simp
  next
    case (Some g)
    then have "g = f" using Cons.prems by (simp add: unsupportedBy_def find_app)
    then show ?thesis using tsFields_Inl [OF Some] by simp
  qed
qed

lemma tsTypes_Inr:
  "unsupportedBy mapTSType tf names = None \<Longrightarrow> \<exists>b'. tsTypes tf names b = Inr b'"
proof (induction names arbitrary: b)
  case Nil
  then show ?case by simp
next
  case (Cons n names)
  have none: "find (\<lambda>f. mapTSType (RawType f) = None) (fieldsOf tf n) = None"
    and rest: "unsupportedBy mapTSType tf names = None"
    using Cons.prems by (auto simp: unsupportedBy_def find_app split: option.splits)
  obtain b' where "tsFields (fieldsOf tf n) (b @ ''export interface '' @ n @ '' {'' @ NL) = Inr b'"
    using tsFields_Inr [OF none] by blast
  then show ?case using Cons.IH [OF rest] by simp
qed

lemma tsTypes_Inl_iff:
  "(tsTypes tf names b = Inl e) =
     (\<exists>f. unsupportedBy mapTSType tf names = Some f \<and> e = UnsupportedTypeError (RawType f))"
proof (cases "unsupportedBy mapTSType tf names")
  case None
  then show ?thesis using tsTypes_Inr [OF None, of b] by auto
next
  case (Some f)
  then show ?thesis using tsTypes_Inl [OF Some, of b] by auto
qed

lemma generateTSBundle_Inl_iff:
  "(generateTSBundle rootName typeNames typeFields = Inl e) =
     (\<exists>f. unsupportedBy mapTSType typeFields typeNames = Some f \<and> e = UnsupportedTypeError (RawType f))"
  unfolding generateTSBundle_def sum_case_Inl_iff tsTypes_Inl_iff ..

subsection \<open>The text of each bundle\<close>

lemma goRoot_lines: "goRoot names b = b @ concat (map goRootLine names)"
  by (induction names arbitrary: b) (simp_all add: goRootLine_def Let_def)

lemma goFields_lines: "goFields fs b = b @ concat (map goFieldLine fs)"
  by (induction fs arbitrary: b) (simp_all add: goFieldLine_def)

lemma goTypes_lines: "goTypes tf names b = b @ concat (map (goTypeDecl tf) names)"
  by (induction names arbitrary: b) (simp_all add: goTypeDecl_def goFields_lines)

lemma generateGoBundle_text:
  "generateGoBundle pkg rootName typeNames typeFields =
     Inr (endWithNewline
            (''package '' @ pkg @ NL @ NL @ ''type '' @ rootName @ '' struct {'' @ NL
             @ concat (map goRootLine typeNames) @ ''}'' @ NL @ NL
             @ concat (map (goTypeDecl typeFields) typeNames)))"
  by (simp add: generateGoBundle_def Let_def goRoot_lines goTypes_lines)

lemma csRoot_lines: "csRoot names b = b @ concat (map csRootLine names)"
  by (induction names arbitrary: b) (simp_all add: csRootLine_def Let_def)

lemma csFields_lines:
  "\<forall>f\<in>set fs. mapCSType (RawType f) \<noteq> None \<Longrightarrow>
   csFields fs b = Inr (b @ concat (map csFieldLine fs))"
  by (induction fs arbitrary: b) (auto simp: csFieldLine_def)

lemma csTypes_lines:
  "\<forall>n\<in>set names. \<forall>f\<in>set (fieldsOf tf n). mapCSType (RawType f) \<noteq> None \<Longrightarrow>
   csTypes tf names b = Inr (b @ concat (map (csTypeDecl tf) names))"
  by (induction names arbitrary: b) (simp_all add: csTypeDecl_def csFields_lines)

lemma generateCSBundle_text:
  "\<forall>n\<in>set typeNames. \<forall>f\<in>set (fieldsOf typeFields n). mapCSType (RawType f) \<noteq> None \<Longrightarrow>
   generateCSBundle rootName typeNames typeFields =
     Inr (endWithNewline
            (''using System.Collections.Generic;'' @ NL
             @ ''using System.Text.Json.Serialization;'' @ NL @ NL
             @ ''public class '' @ rootName @ NL @ ''{'' @ NL
             @ concat (map csRootLine typeNames) @ ''}'' @ NL @ NL
             @ concat (map (csTypeDecl typeFields) typeNames)))"
  by (simp add: generateCSBundle_def Let_def csRoot_lines csTypes_lines)

lemma tsRoot_lines: "tsRoot names b = b @ concat (map tsRootLine names)"
  by (induction names arbitrary: b) (simp_all add: tsRootLine_def Let_def)

lemma tsFields_lines:
  "\<forall>f\<in>set fs. mapTSType (RawType f) \<noteq> None \<Longrightarrow>
   tsFields fs b = Inr (b @ concat (map tsFieldLine fs))"
  by (induction fs arbitrary: b) (auto simp: tsFieldLine_def)

lemma tsTypes_lines:
  "\<forall>n\<in>set names. \<forall>f\<in>set (fieldsOf tf n). mapTSType (RawType f) \<noteq> None \<Longrightarrow>
   tsTypes tf names b = Inr (b @ concat (map (tsTypeDecl tf) names))"
  by (induction names arbitrary: b) (simp_all add: tsTypeDecl_def tsFields_lines)

lemma generateTSBundle_text:
  "\<forall>n\<in>set typeNames. \<forall>f\<in>set (fieldsOf typeFields n). mapTSType (RawType f) \<noteq> None \<Longrightarrow>
   generateTSBundle rootName typeNames typeFields =
     Inr (concat (map (tsTypeDecl typeFields) typeNames)
          @ ''export interface '' @ rootName @ '' {'' @ NL
          @ concat (map tsRootLine typeNames) @ ''}'' @ NL)"
  by (simp add: generateTSBundle_def tsRoot_lines tsTypes_lines)

subsection \<open>The three emitters\<close>

text \<open>
  C1, as the claim states it, fails for the Go emitter: it never consults \<open>mapGoType\<close>.  It
  writes the \<open>GoType\<close> that the parser stored in the field, and it returns no error.  Here
  the aggregate holds a field of raw type \<open>foo\<close>, which \<open>mapGoType\<close> does not hold, and the
  Go emitter renders it.
\<close>

theorem generateGoBundle_renders_unsupported:
  "mapGoType (RawType fooField) = None
   \<and> generateGoBundle ''config'' ''AllConfig'' [''Item''] [''Item'' \<mapsto> [fooField]]
     = Inr (''package config'' @ NL @ NL
            @ ''type AllConfig struct {'' @ NL
            @ TAB @ ''Items []Item '' @ BQ @ ''json:'' @ DQ @ ''items'' @ DQ @ BQ @ NL
            @ ''}'' @ NL @ NL
            @ ''type Item struct {'' @ NL
            @ TAB @ ''Cid int '' @ BQ @ ''json:'' @ DQ @ ''cid'' @ DQ @ BQ @ NL
            @ ''}'' @ NL)"
  by code_simp

text \<open>
  C1, amended.  The C# and the TypeScript emitter resolve the raw type of every field
  through their own table while they render, in the order of \<open>orderedTypeNames\<close> and of
  the fields of each type.  Each fails exactly when some listed type has a field whose
  raw type its table does not hold, and the error is \<open>UnsupportedTypeError\<close> with the raw
  type of the first such field.  Otherwise each returns the text in which the line of
  every field carries the type that the emitter's table gives for the raw type of the
  field (\<open>csFieldLine\<close>, \<open>tsFieldLine\<close>).  The Go emitter resolves nothing and never fails:
  for every aggregate it returns the text in which the line of every field carries the
  \<open>GoType\<close> stored in the field (\<open>goFieldLine\<close>), whatever the raw type of the field is.
\<close>

theorem emitters_unsupported_type:
  "(isl (generateCSBundle rootName typeNames typeFields) =
      (\<exists>n\<in>set typeNames. \<exists>f\<in>set (fieldsOf typeFields n). mapCSType (RawType f) = None))
   \<and> ((generateCSBundle rootName typeNames typeFields = Inl e) =
      (\<exists>f. unsupportedBy mapCSType typeFields typeNames = Some f
           \<and> e = UnsupportedTypeError (RawType f)))
   \<and> ((\<forall>n\<in>set typeNames. \<forall>f\<in>set (fieldsOf typeFields n). mapCSType (RawType f) \<noteq> None) \<longrightarrow>
      generateCSBundle rootName typeNames typeFields =
        Inr (endWithNewline
               (''using System.Collections.Generic;'' @ NL
                @ ''using System.Text.Json.Serialization;'' @ NL @ NL
                @ ''public class '' @ rootName @ NL @ ''{'' @ NL
                @ concat (map csRootLine typeNames) @ ''}'' @ NL @ NL
                @ concat (map (csTypeDecl typeFields) typeNames))))
   \<and> (isl (generateTSBundle rootName typeNames typeFields) =
      (\<exists>n\<in>set typeNames. \<exists>f\<in>set (fieldsOf typeFields n). mapTSType (RawType f) = None))
   \<and> ((generateTSBundle rootName typeNames typeFields = Inl e') =
      (\<exists>f. unsupportedBy mapTSType typeFields typeNames = Some f
           \<and> e' = UnsupportedTypeError (RawType f)))
   \<and> ((\<forall>n\<in>set typeNames. \<forall>f\<in>set (fieldsOf typeFields n). mapTSType (RawType f) \<noteq> None) \<longrightarrow>
      generateTSBundle rootName typeNames typeFields =
        Inr (concat (map (tsTypeDecl typeFields) typeNames)
             @ ''export interface '' @ rootName @ '' {'' @ NL
             @ concat (map tsRootLine typeNames) @ ''}'' @ NL))
   \<and> generateGoBundle pkg rootName typeNames typeFields =
        Inr (endWithNewline
               (''package '' @ pkg @ NL @ NL @ ''type '' @ rootName @ '' struct {'' @ NL
                @ concat (map goRootLine typeNames) @ ''}'' @ NL @ NL
                @ concat (map (goTypeDecl typeFields) typeNames)))"
proof -
  have cs: "isl (generateCSBundle rootName typeNames typeFields) =
      (unsupportedBy mapCSType typeFields typeNames \<noteq> None)"
  proof (cases "unsupportedBy mapCSType typeFields typeNames")
    case None
    then have "\<And>x. generateCSBundle rootName typeNames typeFields \<noteq> Inl x"
      by (simp add: generateCSBundle_Inl_iff)
    then show ?thesis using None
      by (cases "generateCSBundle rootName typeNames typeFields") auto
  next
    case (Some f)
    then show ?thesis by (simp add: generateCSBundle_Inl_iff [THEN iffD2])
  qed
  have ts: "isl (generateTSBundle rootName typeNames typeFields) =
      (unsupportedBy mapTSType typeFields typeNames \<noteq> None)"
  proof (cases "unsupportedBy mapTSType typeFields typeNames")
    case None
    then have "\<And>x. generateTSBundle rootName typeNames typeFields \<noteq> Inl x"
      by (simp add: generateTSBundle_Inl_iff)
    then show ?thesis using None
      by (cases "generateTSBundle rootName typeNames typeFields") auto
  next
    case (Some f)
    then show ?thesis by (simp add: generateTSBundle_Inl_iff [THEN iffD2])
  qed
  have c1: "isl (generateCSBundle rootName typeNames typeFields) =
      (\<exists>n\<in>set typeNames. \<exists>f\<in>set (fieldsOf typeFields n). mapCSType (RawType f) = None)"
    unfolding cs using unsupportedBy_None_iff [of mapCSType typeFields typeNames] by auto
  have t1: "isl (generateTSBundle rootName typeNames typeFields) =
      (\<exists>n\<in>set typeNames. \<exists>f\<in>set (fieldsOf typeFields n). mapTSType (RawType f) = None)"
    unfolding ts using unsupportedBy_None_iff [of mapTSType typeFields typeNames] by auto
  note c2 = generateCSBundle_Inl_iff [of rootName typeNames typeFields e]
  note t2 = generateTSBundle_Inl_iff [of rootName typeNames typeFields e']
  note c3 = generateCSBundle_text [of typeNames typeFields rootName]
  note t3 = generateTSBundle_text [of typeNames typeFields rootName]
  note g = generateGoBundle_text [of pkg rootName typeNames typeFields]
  show ?thesis
    using c1 c2 c3 t1 t2 t3 g by blast
qed

theorem emitters_unsupported_type_witness:
  "generateCSBundle ''AllConfig'' [''Item''] [''Item'' \<mapsto> [fooField]]
     = Inl (UnsupportedTypeError ''foo'')
   \<and> generateTSBundle ''AllConfig'' [''Item''] [''Item'' \<mapsto> [fooField]]
     = Inl (UnsupportedTypeError ''foo'')
   \<and> \<not> isl (generateGoBundle ''config'' ''AllConfig'' [''Item''] [''Item'' \<mapsto> [fooField]])
   \<and> \<not> isl (generateCSBundle ''AllConfig'' [''Item''] [''Item'' \<mapsto> [intField]])
   \<and> \<not> isl (generateTSBundle ''AllConfig'' [''Item''] [''Item'' \<mapsto> [intField]])"
proof -
  have u: "unsupportedBy mapCSType [''Item'' \<mapsto> [fooField]] [''Item''] = Some fooField"
    "unsupportedBy mapTSType [''Item'' \<mapsto> [fooField]] [''Item''] = Some fooField"
    "RawType fooField = ''foo''"
    by code_simp+
  have s: "mapCSType (RawType intField) \<noteq> None" "mapTSType (RawType intField) \<noteq> None"
    by code_simp+
  have a: "\<forall>n\<in>set [''Item'']. \<forall>f\<in>set (fieldsOf [''Item'' \<mapsto> [intField]] n).
             mapCSType (RawType f) \<noteq> None"
    "\<forall>n\<in>set [''Item'']. \<forall>f\<in>set (fieldsOf [''Item'' \<mapsto> [intField]] n).
             mapTSType (RawType f) \<noteq> None"
    using s by (simp_all add: fieldsOf_def)
  have foo: "generateCSBundle ''AllConfig'' [''Item''] [''Item'' \<mapsto> [fooField]]
       = Inl (UnsupportedTypeError ''foo'')"
    "generateTSBundle ''AllConfig'' [''Item''] [''Item'' \<mapsto> [fooField]]
       = Inl (UnsupportedTypeError ''foo'')"
    "\<not> isl (generateGoBundle ''config'' ''AllConfig'' [''Item''] [''Item'' \<mapsto> [fooField]])"
    using u emitters_unsupported_type [of "''AllConfig''" "[''Item'']" "[''Item'' \<mapsto> [fooField]]"
        "UnsupportedTypeError ''foo''" "UnsupportedTypeError ''foo''" "''config''"]
    by simp_all
  have ok: "\<not> isl (generateCSBundle ''AllConfig'' [''Item''] [''Item'' \<mapsto> [intField]])"
    "\<not> isl (generateTSBundle ''AllConfig'' [''Item''] [''Item'' \<mapsto> [intField]])"
    using a emitters_unsupported_type [of "''AllConfig''" "[''Item'']" "[''Item'' \<mapsto> [intField]]"
        "UnsupportedTypeError ''foo''" "UnsupportedTypeError ''foo''" "''config''"]
    by simp_all
  show ?thesis using foo ok by simp
qed

section \<open>Decoding cells\<close>

text \<open>
  C7.  For the raw type \<open>int[]\<close> the decoder turns the cell \<open>{1,2,3}\<close> into the sequence
  1, 2, 3; for \<open>int[][]\<close> it turns \<open>{{1,2},{3,4}}\<close> into the two sequences 1, 2 and 3, 4;
  and for both array types the cell \<open>{}\<close> and the empty cell give an empty sequence.  This
  holds whatever the float parser is.
\<close>

theorem brace_literals_decode:
  "parseCellValue parseFloat ''int[]'' ''{1,2,3}'' = Inr (VIntSlice (Slice [1, 2, 3]))
   \<and> parseCellValue parseFloat ''int[][]'' ''{{1,2},{3,4}}''
       = Inr (VIntSlice2 (Slice [Slice [1, 2], Slice [3, 4]]))
   \<and> parseCellValue parseFloat ''int[]'' ''{}'' = Inr (VIntSlice (Slice []))
   \<and> parseCellValue parseFloat ''int[][]'' ''{}'' = Inr (VIntSlice2 (Slice []))
   \<and> parseCellValue parseFloat ''int[]'' '''' = Inr (VIntSlice (Slice []))
   \<and> parseCellValue parseFloat ''int[][]'' '''' = Inr (VIntSlice2 (Slice []))"
  by code_simp

text \<open>
  C8.  On the empty cell the decoder returns the zero value of the raw type, the type
  name being compared without regard to case: 0 for \<open>int\<close>, \<open>int32\<close> and \<open>int64\<close>; an
  empty sequence, not a \<open>nil\<close> one, for \<open>int[]\<close> and for \<open>int[][]\<close>; the float 0 for
  \<open>float\<close>, \<open>float32\<close> and \<open>float64\<close>; \<open>false\<close> for \<open>bool\<close>; the empty string for
  \<open>string\<close>.  These ten names are exactly the raw types that \<open>mapGoType\<close> holds.
\<close>

theorem empty_cell_zero_value:
  "(ToLower rawType \<in> {''int'', ''int32'', ''int64''} \<longrightarrow>
      parseCellValue parseFloat rawType [] = Inr (VInt 0))
   \<and> (ToLower rawType = ''int[]'' \<longrightarrow>
      parseCellValue parseFloat rawType [] = Inr (VIntSlice (Slice [])))
   \<and> (ToLower rawType = ''int[][]'' \<longrightarrow>
      parseCellValue parseFloat rawType [] = Inr (VIntSlice2 (Slice [])))
   \<and> (ToLower rawType \<in> {''float'', ''float32'', ''float64''} \<longrightarrow>
      parseCellValue parseFloat rawType [] = Inr (VFloat 0))
   \<and> (ToLower rawType = ''bool'' \<longrightarrow>
      parseCellValue parseFloat rawType [] = Inr (VBool False))
   \<and> (ToLower rawType = ''string'' \<longrightarrow>
      parseCellValue parseFloat rawType [] = Inr (VString []))
   \<and> ((mapGoType rawType \<noteq> None) =
      (ToLower rawType \<in> {''int'', ''int32'', ''int64'', ''int[]'', ''int[][]'',
                           ''float'', ''float32'', ''float64'', ''bool'', ''string''}))"
  by (auto simp: parseCellValue_def mapGoType_def Let_def)

theorem empty_cell_zero_value_witness:
  "parseCellValue noFloat ''int64'' [] = Inr (VInt 0)
   \<and> parseCellValue noFloat ''INT[]'' [] = Inr (VIntSlice (Slice []))
   \<and> parseCellValue noFloat ''int[][]'' [] = Inr (VIntSlice2 (Slice []))
   \<and> parseCellValue noFloat ''Float32'' [] = Inr (VFloat 0)
   \<and> parseCellValue noFloat ''bool'' [] = Inr (VBool False)
   \<and> parseCellValue noFloat ''string'' [] = Inr (VString [])
   \<and> mapGoType ''INT[]'' \<noteq> None"
proof -
  have l: "ToLower ''int64'' = ''int64''" "ToLower ''INT[]'' = ''int[]''"
    "ToLower ''int[][]'' = ''int[][]''" "ToLower ''Float32'' = ''float32''"
    "ToLower ''bool'' = ''bool''" "ToLower ''string'' = ''string''"
    by code_simp+
  show ?thesis
    using l empty_cell_zero_value [of "''int64''" noFloat]
      empty_cell_zero_value [of "''INT[]''" noFloat]
      empty_cell_zero_value [of "''int[][]''" noFloat]
      empty_cell_zero_value [of "''Float32''" noFloat]
      empty_cell_zero_value [of "''bool''" noFloat]
      empty_cell_zero_value [of "''string''" noFloat]
    by simp
qed

section \<open>The field-definition parser\<close>

text \<open>
  One cell of the define row at a time: a blank cell and a comment cell are skipped, a
  cell that \<open>fieldRe\<close> does not match is rejected, and a matched cell is skipped, filtered,
  rejected or turned into a field.
\<close>

lemma parseCell_blank: "TrimSpace cell = [] \<Longrightarrow> parseCell ef d c cell = Inr None"
  by (simp add: parseCell_def)

lemma parseCell_comment: "commentCell (TrimSpace cell) \<Longrightarrow> parseCell ef d c cell = Inr None"
  by (auto simp: parseCell_def commentCell_def Let_def)

lemma parseCell_invalid:
  "TrimSpace cell \<noteq> [] \<Longrightarrow> \<not> commentCell (TrimSpace cell) \<Longrightarrow> fieldRe (TrimSpace cell) = None \<Longrightarrow>
   parseCell ef d c cell = Inl (InvalidFieldDefinitionError (TrimSpace cell) d)"
  by (simp add: parseCell_def commentCell_def Let_def)

lemma parseCell_matched:
  "TrimSpace cell \<noteq> [] \<Longrightarrow> \<not> commentCell (TrimSpace cell) \<Longrightarrow>
   fieldRe (TrimSpace cell) = Some (n, t, fl) \<Longrightarrow>
   parseCell ef d c cell =
     (if ToLower t = ''comment'' \<or> ToLower t = ''common'' then Inr None
      else if ef = ''server'' \<and> flagOf fl = FieldFlagClient then Inr None
      else if ef = ''client'' \<and> flagOf fl = FieldFlagServer then Inr None
      else if ef \<noteq> [] \<and> ef \<noteq> ''server'' \<and> ef \<noteq> ''client'' then Inl (InvalidFlagError ef)
      else case mapGoType t of
        None \<Rightarrow> Inl (UnsupportedTypeError t)
      | Some g \<Rightarrow> Inr (Some \<lparr>RawName = n, Name = exportName n, RawType = t, GoType = g,
                               Col = int c, Flag = flagOf fl, Exported = True, IsComment = False\<rparr>))"
  by (simp add: parseCell_def commentCell_def Let_def)

text \<open>The four ways a cell is handled.\<close>

lemma parseCell_cases:
  obtains (blank) "TrimSpace cell = []"
  | (comment) "TrimSpace cell \<noteq> []" "commentCell (TrimSpace cell)"
  | (invalid) "TrimSpace cell \<noteq> []" "\<not> commentCell (TrimSpace cell)" "fieldRe (TrimSpace cell) = None"
  | (matched) n t fl where "TrimSpace cell \<noteq> []" "\<not> commentCell (TrimSpace cell)"
      "fieldRe (TrimSpace cell) = Some (n, t, fl)"
  by (cases "fieldRe (TrimSpace cell)") auto

lemma parseCell_Col: "parseCell ef d c cell = Inr (Some f) \<Longrightarrow> Col f = int c"
proof (cases cell rule: parseCell_cases)
  case blank
  assume "parseCell ef d c cell = Inr (Some f)"
  then show ?thesis using blank by (simp add: parseCell_blank)
next
  case comment
  assume "parseCell ef d c cell = Inr (Some f)"
  then show ?thesis using comment by (simp add: parseCell_comment)
next
  case invalid
  assume "parseCell ef d c cell = Inr (Some f)"
  then show ?thesis using invalid by (simp add: parseCell_invalid)
next
  case (matched n t fl)
  assume "parseCell ef d c cell = Inr (Some f)"
  then show ?thesis unfolding parseCell_matched [OF matched]
    by (cases "mapGoType t") (auto split: if_splits)
qed

lemma parseCell_server:
  "parseCell [] d c cell = Inr r \<Longrightarrow>
   parseCell ''server'' d c cell =
     Inr (case r of None \<Rightarrow> None | Some f \<Rightarrow> if Flag f = FieldFlagClient then None else Some f)"
proof (cases cell rule: parseCell_cases)
  case blank
  assume "parseCell [] d c cell = Inr r"
  then show ?thesis using blank by (auto simp: parseCell_blank)
next
  case comment
  assume "parseCell [] d c cell = Inr r"
  then show ?thesis using comment by (auto simp: parseCell_comment)
next
  case invalid
  assume "parseCell [] d c cell = Inr r"
  then show ?thesis using invalid by (simp add: parseCell_invalid)
next
  case (matched n t fl)
  assume "parseCell [] d c cell = Inr r"
  then show ?thesis unfolding parseCell_matched [OF matched]
    by (cases "mapGoType t") (auto split: if_splits)
qed

lemma parseCell_client:
  "parseCell [] d c cell = Inr r \<Longrightarrow>
   parseCell ''client'' d c cell =
     Inr (case r of None \<Rightarrow> None | Some f \<Rightarrow> if Flag f = FieldFlagServer then None else Some f)"
proof (cases cell rule: parseCell_cases)
  case blank
  assume "parseCell [] d c cell = Inr r"
  then show ?thesis using blank by (auto simp: parseCell_blank)
next
  case comment
  assume "parseCell [] d c cell = Inr r"
  then show ?thesis using comment by (auto simp: parseCell_comment)
next
  case invalid
  assume "parseCell [] d c cell = Inr r"
  then show ?thesis using invalid by (simp add: parseCell_invalid)
next
  case (matched n t fl)
  assume "parseCell [] d c cell = Inr r"
  then show ?thesis unfolding parseCell_matched [OF matched]
    by (cases "mapGoType t") (auto split: if_splits)
qed

lemma parseCells_rowFields:
  "parseCells ef d c row acc =
     (case rowFields ef d c row of Inl e \<Rightarrow> Inl e | Inr fs \<Rightarrow> Inr (acc @ fs))"
  by (induction row arbitrary: c acc) (auto split: sum.splits option.splits)

lemma parseFieldsFromDefineRow_rowFields:
  "0 < d \<Longrightarrow> d \<le> int (length rows) \<Longrightarrow>
   parseFieldsFromDefineRow rows d ef =
     (case rowFields ef d 0 (rows ! nat (d - 1)) of
        Inl e \<Rightarrow> Inl e
      | Inr fs \<Rightarrow> if fs = [] then Inl EmptySchemaError else Inr fs)"
  by (simp add: parseFieldsFromDefineRow_def parseCells_rowFields split: sum.splits)

lemma rowFields_Inr_D:
  "rowFields ef d c row = Inr fs \<Longrightarrow>
     (\<forall>i<length row. \<not> isl (parseCell ef d (c + i) (row ! i)))
     \<and> (\<forall>f. (f \<in> set fs) = (\<exists>i<length row. parseCell ef d (c + i) (row ! i) = Inr (Some f)))"
proof (induction row arbitrary: c fs)
  case Nil
  then show ?case by simp
next
  case (Cons cell row)
  from Cons.prems obtain r fs' where
    r: "parseCell ef d c cell = Inr r" and
    rest: "rowFields ef d (Suc c) row = Inr fs'" and
    fs: "fs = (case r of None \<Rightarrow> fs' | Some f \<Rightarrow> f # fs')"
    by (auto split: sum.splits)
  note ih = Cons.IH [OF rest]
  have a: "\<not> isl (parseCell ef d (c + i) ((cell # row) ! i))" if "i < length (cell # row)" for i
  proof (cases i)
    case 0
    then show ?thesis using r by simp
  next
    case (Suc k)
    then show ?thesis using ih that by simp
  qed
  have b: "(f \<in> set fs) =
      (\<exists>i<length (cell # row). parseCell ef d (c + i) ((cell # row) ! i) = Inr (Some f))" for f
  proof
    assume "f \<in> set fs"
    then consider "r = Some f" | "f \<in> set fs'" using fs by (cases r) auto
    then show "\<exists>i<length (cell # row). parseCell ef d (c + i) ((cell # row) ! i) = Inr (Some f)"
    proof cases
      case 1
      then have "parseCell ef d (c + 0) ((cell # row) ! 0) = Inr (Some f)" using r by simp
      then show ?thesis by blast
    next
      case 2
      then obtain k where "k < length row" "parseCell ef d (Suc c + k) (row ! k) = Inr (Some f)"
        using ih by blast
      then have "Suc k < length (cell # row)"
        "parseCell ef d (c + Suc k) ((cell # row) ! Suc k) = Inr (Some f)" by simp_all
      then show ?thesis by blast
    qed
  next
    assume "\<exists>i<length (cell # row). parseCell ef d (c + i) ((cell # row) ! i) = Inr (Some f)"
    then obtain i where i: "i < length (cell # row)"
      "parseCell ef d (c + i) ((cell # row) ! i) = Inr (Some f)" by blast
    show "f \<in> set fs"
    proof (cases i)
      case 0
      then have "r = Some f" using i r by simp
      then show ?thesis using fs by simp
    next
      case (Suc k)
      then have "k < length row" "parseCell ef d (Suc c + k) (row ! k) = Inr (Some f)"
        using i by simp_all
      then have "f \<in> set fs'" using ih by blast
      then show ?thesis using fs by (cases r) simp_all
    qed
  qed
  show ?case using a b by blast
qed

lemma rowFields_Cols:
  "rowFields ef d c row = Inr fs \<Longrightarrow>
     sorted_wrt (\<lambda>f g. Col f < Col g) fs \<and> (\<forall>f\<in>set fs. int c \<le> Col f)"
proof (induction row arbitrary: c fs)
  case Nil
  then show ?case by simp
next
  case (Cons cell row)
  from Cons.prems obtain r fs' where
    r: "parseCell ef d c cell = Inr r" and
    rest: "rowFields ef d (Suc c) row = Inr fs'" and
    fs: "fs = (case r of None \<Rightarrow> fs' | Some f \<Rightarrow> f # fs')"
    by (auto split: sum.splits)
  have ih: "sorted_wrt (\<lambda>f g. Col f < Col g) fs'" "\<forall>f\<in>set fs'. int (Suc c) \<le> Col f"
    using Cons.IH [OF rest] by simp_all
  show ?case
  proof (cases r)
    case None
    then show ?thesis using ih fs by auto
  next
    case (Some f)
    then have "Col f = int c" using r parseCell_Col by blast
    then show ?thesis using ih fs Some by auto
  qed
qed

lemma rowFields_Inr_I:
  "\<forall>i<length row. \<not> isl (parseCell ef d (c + i) (row ! i)) \<Longrightarrow> \<exists>fs. rowFields ef d c row = Inr fs"
proof (induction row arbitrary: c)
  case Nil
  then show ?case by simp
next
  case (Cons cell row)
  have "\<not> isl (parseCell ef d (c + 0) ((cell # row) ! 0))" using Cons.prems by blast
  then obtain r where r: "parseCell ef d c cell = Inr r"
    by (cases "parseCell ef d c cell") auto
  have "\<not> isl (parseCell ef d (Suc c + i) (row ! i))" if "i < length row" for i
  proof -
    have "Suc i < length (cell # row)" using that by simp
    then have "\<not> isl (parseCell ef d (c + Suc i) ((cell # row) ! Suc i))" using Cons.prems by blast
    then show ?thesis by simp
  qed
  then obtain fs where "rowFields ef d (Suc c) row = Inr fs" using Cons.IH by blast
  then show ?case using r by simp
qed

lemma rowFields_first_error:
  "i < length row \<Longrightarrow> parseCell ef d (c + i) (row ! i) = Inl e \<Longrightarrow>
   \<forall>j<i. \<not> isl (parseCell ef d (c + j) (row ! j)) \<Longrightarrow>
   rowFields ef d c row = Inl e"
proof (induction row arbitrary: c i)
  case Nil
  then show ?case by simp
next
  case (Cons cell row)
  show ?case
  proof (cases i)
    case 0
    then show ?thesis using Cons.prems by simp
  next
    case (Suc k)
    have "\<not> isl (parseCell ef d (c + 0) ((cell # row) ! 0))" using Cons.prems(3) Suc by blast
    then obtain r where r: "parseCell ef d c cell = Inr r"
      by (cases "parseCell ef d c cell") auto
    have prev: "\<not> isl (parseCell ef d (Suc c + j) (row ! j))" if "j < k" for j
    proof -
      have "Suc j < i" using that Suc by simp
      then have "\<not> isl (parseCell ef d (c + Suc j) ((cell # row) ! Suc j))"
        using Cons.prems(3) by blast
      then show ?thesis by simp
    qed
    have "k < length row" "parseCell ef d (Suc c + k) (row ! k) = Inl e"
      using Cons.prems Suc by simp_all
    then have "rowFields ef d (Suc c) row = Inl e" using Cons.IH prev by blast
    then show ?thesis using r by simp
  qed
qed

lemma rowFields_error:
  "i < length row \<Longrightarrow> isl (parseCell ef d (c + i) (row ! i)) \<Longrightarrow> isl (rowFields ef d c row)"
  using rowFields_Inr_D [of ef d c row] by (cases "rowFields ef d c row") auto

lemma rowFields_server:
  "rowFields [] d c row = Inr fs \<Longrightarrow>
   rowFields ''server'' d c row = Inr (filter (\<lambda>f. Flag f \<noteq> FieldFlagClient) fs)"
proof (induction row arbitrary: c fs)
  case Nil
  then show ?case by simp
next
  case (Cons cell row)
  from Cons.prems obtain r fs' where
    r: "parseCell [] d c cell = Inr r" and
    rest: "rowFields [] d (Suc c) row = Inr fs'" and
    fs: "fs = (case r of None \<Rightarrow> fs' | Some f \<Rightarrow> f # fs')"
    by (auto split: sum.splits)
  show ?case
    using Cons.IH [OF rest] parseCell_server [OF r] fs by (cases r) simp_all
qed

lemma rowFields_client:
  "rowFields [] d c row = Inr fs \<Longrightarrow>
   rowFields ''client'' d c row = Inr (filter (\<lambda>f. Flag f \<noteq> FieldFlagServer) fs)"
proof (induction row arbitrary: c fs)
  case Nil
  then show ?case by simp
next
  case (Cons cell row)
  from Cons.prems obtain r fs' where
    r: "parseCell [] d c cell = Inr r" and
    rest: "rowFields [] d (Suc c) row = Inr fs'" and
    fs: "fs = (case r of None \<Rightarrow> fs' | Some f \<Rightarrow> f # fs')"
    by (auto split: sum.splits)
  show ?case
    using Cons.IH [OF rest] parseCell_client [OF r] fs by (cases r) simp_all
qed

lemma parseCell_errors:
  "parseCell ef d c cell = Inl e \<Longrightarrow>
     e = InvalidFieldDefinitionError (TrimSpace cell) d \<or> e = InvalidFlagError ef
     \<or> (\<exists>t. e = UnsupportedTypeError t)"
proof (cases cell rule: parseCell_cases)
  case blank
  assume "parseCell ef d c cell = Inl e"
  then show ?thesis using blank by (simp add: parseCell_blank)
next
  case comment
  assume "parseCell ef d c cell = Inl e"
  then show ?thesis using comment by (simp add: parseCell_comment)
next
  case invalid
  assume "parseCell ef d c cell = Inl e"
  then show ?thesis using invalid by (simp add: parseCell_invalid)
next
  case (matched n t fl)
  assume "parseCell ef d c cell = Inl e"
  then show ?thesis unfolding parseCell_matched [OF matched]
    by (cases "mapGoType t") (auto split: if_splits)
qed

lemma first_rejected:
  assumes "isl (P (i::nat))"
  shows "\<exists>j\<le>i. isl (P j) \<and> (\<forall>k<j. \<not> isl (P k))"
proof -
  obtain j where j: "isl (P j)" "\<forall>k<j. \<not> isl (P k)"
    using assms exists_least_iff [of "\<lambda>n. isl (P n)"] by blast
  then have "j \<le> i" using assms by (meson not_le_imp_less)
  then show ?thesis using j by blast
qed

text \<open>
  C5, as the claim states it, fails when a cell to the left is rejected first.  The cell
  \<open>cid-int\<close> is not blank, is no comment cell and does not match the grammar.  After the
  cell \<open>x#foo\<close> the parser fails with \<open>UnsupportedTypeError\<close>, and under the filter
  \<open>all\<close> after the cell \<open>x#int\<close> with \<open>InvalidFlagError\<close>: the loop returns at the
  first rejected cell and never reaches \<open>cid-int\<close>.
\<close>

theorem malformed_cell_other_error:
  "TrimSpace ''cid-int'' \<noteq> [] \<and> \<not> commentCell (TrimSpace ''cid-int'')
   \<and> fieldRe (TrimSpace ''cid-int'') = None
   \<and> parseFieldsFromDefineRow [[''x#foo'', ''cid-int'']] 1 [] = Inl (UnsupportedTypeError ''foo'')
   \<and> parseFieldsFromDefineRow [[''x#int'', ''cid-int'']] 1 ''all'' = Inl (InvalidFlagError ''all'')"
  by code_simp

text \<open>
  C5, amended.  Let a cell of the define row be not blank after trimming, not contain
  \<open>#comment\<close> or \<open>#common\<close> without regard to case, and not match \<open>fieldRe\<close>.  Then the
  parser fails, so the cell is never silently dropped: there is a first rejected cell, at
  or to the left of this one, and the parser returns the error of that cell, which is
  \<open>InvalidFieldDefinitionError\<close> with the trimmed cell and the row, \<open>InvalidFlagError\<close>
  with the filter, or \<open>UnsupportedTypeError\<close>.  When no cell to the left is rejected, the
  error is \<open>InvalidFieldDefinitionError\<close> with this cell, trimmed, and the define row.
\<close>

theorem malformed_cell_rejected:
  assumes "0 < d" and "d \<le> int (length rows)"
    and "i < length (rows ! nat (d - 1))"
    and "TrimSpace (rows ! nat (d - 1) ! i) \<noteq> []"
    and "\<not> commentCell (TrimSpace (rows ! nat (d - 1) ! i))"
    and "fieldRe (TrimSpace (rows ! nat (d - 1) ! i)) = None"
  shows "(\<exists>j\<le>i. \<exists>e. parseCell ef d j (rows ! nat (d - 1) ! j) = Inl e
            \<and> (\<forall>k<j. \<not> isl (parseCell ef d k (rows ! nat (d - 1) ! k)))
            \<and> parseFieldsFromDefineRow rows d ef = Inl e
            \<and> (e = InvalidFieldDefinitionError (TrimSpace (rows ! nat (d - 1) ! j)) d
                \<or> e = InvalidFlagError ef \<or> (\<exists>t. e = UnsupportedTypeError t)))
       \<and> ((\<forall>k<i. \<not> isl (parseCell ef d k (rows ! nat (d - 1) ! k))) \<longrightarrow>
            parseFieldsFromDefineRow rows d ef
              = Inl (InvalidFieldDefinitionError (TrimSpace (rows ! nat (d - 1) ! i)) d))"
proof -
  define row where "row = rows ! nat (d - 1)"
  have bad: "parseCell ef d i (row ! i) = Inl (InvalidFieldDefinitionError (TrimSpace (row ! i)) d)"
    using assms(4-6) unfolding row_def by (rule parseCell_invalid)
  then have "isl (parseCell ef d i (row ! i))" by simp
  then obtain j where j: "j \<le> i" "isl (parseCell ef d j (row ! j))"
    "\<forall>k<j. \<not> isl (parseCell ef d k (row ! k))"
    using first_rejected [of "\<lambda>n. parseCell ef d n (row ! n)" i] by blast
  then obtain e where e: "parseCell ef d j (row ! j) = Inl e"
    by (cases "parseCell ef d j (row ! j)") auto
  have jl: "j < length row" using j(1) assms(3) by (simp add: row_def)
  have "rowFields ef d 0 row = Inl e"
    using rowFields_first_error [of j row ef d 0 e] jl e j(3) by simp
  then have p: "parseFieldsFromDefineRow rows d ef = Inl e"
    using assms(1,2) by (simp add: parseFieldsFromDefineRow_rowFields row_def)
  have kinds: "e = InvalidFieldDefinitionError (TrimSpace (row ! j)) d \<or> e = InvalidFlagError ef
     \<or> (\<exists>t. e = UnsupportedTypeError t)"
    using parseCell_errors [OF e] .
  have first: "\<exists>j\<le>i. \<exists>e. parseCell ef d j (row ! j) = Inl e
            \<and> (\<forall>k<j. \<not> isl (parseCell ef d k (row ! k)))
            \<and> parseFieldsFromDefineRow rows d ef = Inl e
            \<and> (e = InvalidFieldDefinitionError (TrimSpace (row ! j)) d
                \<or> e = InvalidFlagError ef \<or> (\<exists>t. e = UnsupportedTypeError t))"
    using j(1,3) e p kinds by blast
  have second: "parseFieldsFromDefineRow rows d ef
              = Inl (InvalidFieldDefinitionError (TrimSpace (row ! i)) d)"
    if "\<forall>k<i. \<not> isl (parseCell ef d k (row ! k))"
  proof -
    have "rowFields ef d 0 row = Inl (InvalidFieldDefinitionError (TrimSpace (row ! i)) d)"
      using rowFields_first_error [of i row ef d 0] assms(3) bad that by (simp add: row_def)
    then show ?thesis using assms(1,2) by (simp add: parseFieldsFromDefineRow_rowFields row_def)
  qed
  show ?thesis using first second unfolding row_def by blast
qed

text \<open>
  The second row holds the malformed cell \<open>cid-int\<close> after an accepted cell and before a
  cell of unsupported type; the error names \<open>cid-int\<close> and row 2.
\<close>

theorem malformed_cell_rejected_witness:
  "parseFieldsFromDefineRow [[''id''], [''cid#int'', ''cid-int'', ''x#foo'']] 2 []
     = Inl (InvalidFieldDefinitionError ''cid-int'' 2)"
proof -
  have h: "TrimSpace ''cid-int'' = ''cid-int''" "\<not> commentCell ''cid-int''"
    "fieldRe ''cid-int'' = None" "\<not> isl (parseCell [] 2 0 ''cid#int'')"
    by code_simp+
  show ?thesis
    using h malformed_cell_rejected [of 2 "[[''id''], [''cid#int'', ''cid-int'', ''x#foo'']]" 1 "[]"]
    by simp
qed

section \<open>The visibility filter\<close>

text \<open>
  The cell \<open>name#int,s\<close>, for an identifier \<open>name\<close>, is matched by \<open>fieldRe\<close> with the type
  \<open>int\<close> and the flag \<open>s\<close>, and is no comment cell.
\<close>

lemma reWord_byte:
  "reWord c \<Longrightarrow> inRange 65 90 c \<or> inRange 97 122 c \<or> inRange 48 57 c \<or> byte c = 95"
proof -
  have "byte (CHR ''_'') = 95" by (simp add: byte_def)
  then show "reWord c \<Longrightarrow> ?thesis" by (auto simp: reWord_def reDigit_def)
qed

lemma reSpace_byte: "reSpace c \<Longrightarrow> byte c \<le> 32"
proof -
  have "byte (CHR 0x09) = 9" "byte (CHR 0x0A) = 10" "byte (CHR 0x0C) = 12"
    "byte (CHR 0x0D) = 13" "byte (CHR 0x20) = 32"
    by (simp_all add: byte_def)
  then show "reSpace c \<Longrightarrow> ?thesis" by (auto simp: reSpace_def)
qed

lemma reWord_not_space: "reWord c \<Longrightarrow> \<not> reSpace c"
  using reWord_byte [of c] reSpace_byte [of c] by (auto simp: inRange_def)

lemma reWord_ascii: "reWord c \<Longrightarrow> byte c < 128"
  using reWord_byte [of c] by (auto simp: inRange_def)

lemma hash_byte: "byte (CHR ''#'') = 35"
  by (simp add: byte_def)

lemma reWord_lower_not_hash: "reWord c \<Longrightarrow> asciiLower c \<noteq> CHR ''#''"
proof
  assume w: "reWord c" and "asciiLower c = CHR ''#''"
  then have "byte (asciiLower c) = 35" using hash_byte by simp
  then have "(if inRange 65 90 c then byte c + 32 else byte c) = 35"
    by (simp add: byte_asciiLower)
  then show False using reWord_byte [OF w] by (auto simp: inRange_def split: if_splits)
qed

lemma dropWhile_hd: "s \<noteq> [] \<Longrightarrow> \<not> P (hd s) \<Longrightarrow> dropWhile P s = s"
  by (cases s) auto

lemma Contains_skip:
  "c0 \<notin> set l \<Longrightarrow> Contains (l @ r) (c0 # p) = Contains r (c0 # p)"
  by (induction l) auto

lemma isIdent_D:
  "isIdent name \<Longrightarrow> name \<noteq> [] \<and> \<not> reDigit (hd name) \<and> (\<forall>c\<in>set name. reWord c)
     \<and> \<not> reSpace (hd name) \<and> isASCII name"
  by (cases name) (auto simp: isIdent_def isASCII_def list_all_iff reWord_not_space reWord_ascii)

lemma fieldRe_int_s:
  assumes "isIdent name"
  shows "fieldRe (name @ ''#int,s'') = Some (name, ''int'', ''s'')"
proof -
  note n = isIdent_D [OF assms]
  have tail: "takeWhile reWord ''#int,s'' = []" "dropWhile reWord ''#int,s'' = ''#int,s''"
    "dropWhile reSpace ''#int,s'' = ''#int,s''" "dropWhile reSpace ''int,s'' = ''int,s''"
    "takeWhile reTypeChar ''int,s'' = ''int''" "dropWhile reTypeChar ''int,s'' = '',s''"
    "dropWhile reSpace '',s'' = '',s''" "dropWhile reSpace ''s'' = ''s''"
    by code_simp+
  have s1: "dropWhile reSpace (name @ ''#int,s'') = name @ ''#int,s''"
    using n by (intro dropWhile_hd) auto
  have tk: "takeWhile reWord (name @ ''#int,s'') = name"
    using n tail(1) by (simp add: takeWhile_append2 del: takeWhile.simps)
  have dr: "dropWhile reWord (name @ ''#int,s'') = ''#int,s''"
    using n tail(2) by (simp add: dropWhile_append2 del: dropWhile.simps)
  show ?thesis
    using n by (simp add: fieldRe_def Let_def s1 tk dr tail del: dropWhile.simps takeWhile.simps)
qed

lemma commentCell_int_s:
  assumes "isIdent name"
  shows "\<not> commentCell (name @ ''#int,s'')"
proof -
  note n = isIdent_D [OF assms]
  have "isASCII ''#int,s''" by code_simp
  then have a: "isASCII (name @ ''#int,s'')" using n by (simp add: isASCII_def)
  have l: "map asciiLower ''#int,s'' = ''#int,s''" by code_simp
  have nohash: "CHR ''#'' \<notin> set (map asciiLower name)"
  proof
    assume "CHR ''#'' \<in> set (map asciiLower name)"
    then obtain x where "x \<in> set name" "asciiLower x = CHR ''#''" by auto
    then show False using n reWord_lower_not_hash by blast
  qed
  have c: "\<not> Contains ''#int,s'' ''#comment''" "\<not> Contains ''#int,s'' ''#common''"
    by code_simp+
  have "ToLower (name @ ''#int,s'') = map asciiLower name @ ''#int,s''"
    using a l by (simp add: ToLower_def mapRunes_ascii)
  then show ?thesis
    using Contains_skip [OF nohash, of "''#int,s''"] c by (simp add: commentCell_def)
qed

lemma parseCell_int_s:
  assumes "isIdent name" and "TrimSpace cell = name @ ''#int,s''"
  shows "parseCell ef d c cell =
     (if ef = ''client'' then Inr None
      else if ef \<noteq> [] \<and> ef \<noteq> ''server'' then Inl (InvalidFlagError ef)
      else Inr (Some \<lparr>RawName = name, Name = exportName name, RawType = ''int'', GoType = ''int'',
                       Col = int c, Flag = FieldFlagServer, Exported = True, IsComment = False\<rparr>))"
proof -
  have ne: "TrimSpace cell \<noteq> []" using assms(2) by simp
  have nc: "\<not> commentCell (TrimSpace cell)" using commentCell_int_s [OF assms(1)] assms(2) by simp
  have re: "fieldRe (TrimSpace cell) = Some (name, ''int'', ''s'')"
    using fieldRe_int_s [OF assms(1)] assms(2) by simp
  have k: "ToLower ''int'' = ''int''" "mapGoType ''int'' = Some ''int''"
    "flagOf ''s'' = FieldFlagServer"
    by code_simp+
  show ?thesis unfolding parseCell_matched [OF ne nc re] k by simp
qed

lemma parseCell_filtered:
  "parseCell ef d c cell = Inr (Some f) \<Longrightarrow>
     (ef = ''server'' \<longrightarrow> Flag f \<noteq> FieldFlagClient) \<and> (ef = ''client'' \<longrightarrow> Flag f \<noteq> FieldFlagServer)"
proof (cases cell rule: parseCell_cases)
  case blank
  assume "parseCell ef d c cell = Inr (Some f)"
  then show ?thesis using blank by (simp add: parseCell_blank)
next
  case comment
  assume "parseCell ef d c cell = Inr (Some f)"
  then show ?thesis using comment by (simp add: parseCell_comment)
next
  case invalid
  assume "parseCell ef d c cell = Inr (Some f)"
  then show ?thesis using invalid by (simp add: parseCell_invalid)
next
  case (matched n t fl)
  assume "parseCell ef d c cell = Inr (Some f)"
  then show ?thesis unfolding parseCell_matched [OF matched]
    by (cases "mapGoType t") (auto split: if_splits)
qed

lemma parseFields_Inr_D:
  assumes "parseFieldsFromDefineRow rows d ef = Inr fs"
  shows "0 < d \<and> d \<le> int (length rows) \<and> rowFields ef d 0 (rows ! nat (d - 1)) = Inr fs \<and> fs \<noteq> []"
proof -
  have r: "0 < d" "d \<le> int (length rows)"
    using assms by (auto simp: parseFieldsFromDefineRow_def split: if_splits)
  then show ?thesis
    using assms by (auto simp: parseFieldsFromDefineRow_rowFields split: sum.splits if_splits)
qed

lemma parseFields_mem:
  assumes "parseFieldsFromDefineRow rows d ef = Inr fs"
  shows "(f \<in> set fs) =
     (\<exists>i<length (rows ! nat (d - 1)). parseCell ef d i (rows ! nat (d - 1) ! i) = Inr (Some f))"
  using rowFields_Inr_D [of ef d 0 "rows ! nat (d - 1)" fs] parseFields_Inr_D [OF assms] by simp

lemma parseFields_cells_ok:
  assumes "parseFieldsFromDefineRow rows d ef = Inr fs" and "i < length (rows ! nat (d - 1))"
  shows "\<not> isl (parseCell ef d i (rows ! nat (d - 1) ! i))"
  using rowFields_Inr_D [of ef d 0 "rows ! nat (d - 1)" fs] parseFields_Inr_D [OF assms(1)] assms(2)
  by simp

text \<open>
  C6.  Let the define row hold, in column \<open>i\<close>, a cell that is \<open>name#int,s\<close> after
  trimming, for an identifier \<open>name\<close>, and let the parser succeed.  Without a filter and
  with the filter \<open>server\<close> the field list holds the server-only field of that cell, with
  the raw name \<open>name\<close>, the type \<open>int\<close> and the column \<open>i\<close>; with the filter \<open>client\<close> it
  holds no field of column \<open>i\<close>.  Under the filter \<open>server\<close> no field of the list is
  client-only, and under the filter \<open>client\<close> none is server-only.  When the parser
  succeeds without a filter with the list \<open>all\<close>, the filter \<open>server\<close> gives \<open>all\<close>
  without its client-only fields and the filter \<open>client\<close> gives \<open>all\<close> without its
  server-only fields, in the same order (or \<open>EmptySchemaError\<close> when nothing is left).
  And without a filter every parsed field is kept: each cell of the define row that is
  not blank, is no comment cell, matches the grammar and is not of the type \<open>comment\<close>
  or \<open>common\<close> has a field in \<open>all\<close>, with its column, name, type and flag.
\<close>

theorem visibility_filter:
  "(i < length (rows ! nat (d - 1)) \<and> isIdent name
      \<and> TrimSpace (rows ! nat (d - 1) ! i) = name @ ''#int,s''
      \<and> parseFieldsFromDefineRow rows d ef = Inr fs \<longrightarrow>
        ((ef = [] \<or> ef = ''server'') \<longrightarrow>
           \<lparr>RawName = name, Name = exportName name, RawType = ''int'', GoType = ''int'',
            Col = int i, Flag = FieldFlagServer, Exported = True, IsComment = False\<rparr> \<in> set fs)
        \<and> (ef = ''client'' \<longrightarrow> (\<forall>f\<in>set fs. Col f \<noteq> int i)))
   \<and> (parseFieldsFromDefineRow rows d ''server'' = Inr fsrv \<longrightarrow>
        (\<forall>f\<in>set fsrv. Flag f \<noteq> FieldFlagClient))
   \<and> (parseFieldsFromDefineRow rows d ''client'' = Inr fcli \<longrightarrow>
        (\<forall>f\<in>set fcli. Flag f \<noteq> FieldFlagServer))
   \<and> (parseFieldsFromDefineRow rows d [] = Inr all \<longrightarrow>
        parseFieldsFromDefineRow rows d ''server''
          = (if filter (\<lambda>f. Flag f \<noteq> FieldFlagClient) all = [] then Inl EmptySchemaError
             else Inr (filter (\<lambda>f. Flag f \<noteq> FieldFlagClient) all))
        \<and> parseFieldsFromDefineRow rows d ''client''
          = (if filter (\<lambda>f. Flag f \<noteq> FieldFlagServer) all = [] then Inl EmptySchemaError
             else Inr (filter (\<lambda>f. Flag f \<noteq> FieldFlagServer) all)))
   \<and> (parseFieldsFromDefineRow rows d [] = Inr all \<and> j < length (rows ! nat (d - 1))
      \<and> TrimSpace (rows ! nat (d - 1) ! j) \<noteq> [] \<and> \<not> commentCell (TrimSpace (rows ! nat (d - 1) ! j))
      \<and> fieldRe (TrimSpace (rows ! nat (d - 1) ! j)) = Some (n, t, fl)
      \<and> ToLower t \<noteq> ''comment'' \<and> ToLower t \<noteq> ''common'' \<longrightarrow>
        (\<exists>f\<in>set all. Col f = int j \<and> RawName f = n \<and> RawType f = t \<and> Flag f = flagOf fl))"
proof (intro conjI impI)
  assume h: "i < length (rows ! nat (d - 1)) \<and> isIdent name
      \<and> TrimSpace (rows ! nat (d - 1) ! i) = name @ ''#int,s''
      \<and> parseFieldsFromDefineRow rows d ef = Inr fs"
  then have il: "i < length (rows ! nat (d - 1))" and idn: "isIdent name"
    and cell: "TrimSpace (rows ! nat (d - 1) ! i) = name @ ''#int,s''"
    and p: "parseFieldsFromDefineRow rows d ef = Inr fs" by blast+
  note pc = parseCell_int_s [OF idn cell, of ef d i]
  {
    assume "ef = [] \<or> ef = ''server''"
    then have "parseCell ef d i (rows ! nat (d - 1) ! i) =
       Inr (Some \<lparr>RawName = name, Name = exportName name, RawType = ''int'', GoType = ''int'',
                   Col = int i, Flag = FieldFlagServer, Exported = True, IsComment = False\<rparr>)"
      using pc by auto
    then show "\<lparr>RawName = name, Name = exportName name, RawType = ''int'', GoType = ''int'',
            Col = int i, Flag = FieldFlagServer, Exported = True, IsComment = False\<rparr> \<in> set fs"
      using parseFields_mem [OF p] il by blast
  }
  {
    assume c: "ef = ''client''"
    show "\<forall>f\<in>set fs. Col f \<noteq> int i"
    proof
      fix f assume "f \<in> set fs"
      then obtain k where k: "k < length (rows ! nat (d - 1))"
        "parseCell ef d k (rows ! nat (d - 1) ! k) = Inr (Some f)"
        using parseFields_mem [OF p] by blast
      then have ck: "Col f = int k" using parseCell_Col by blast
      have "parseCell ef d i (rows ! nat (d - 1) ! i) = Inr None" using pc c by simp
      then have "k \<noteq> i" using k(2) by auto
      then show "Col f \<noteq> int i" using ck by simp
    qed
  }
next
  assume p: "parseFieldsFromDefineRow rows d ''server'' = Inr fsrv"
  show "\<forall>f\<in>set fsrv. Flag f \<noteq> FieldFlagClient"
    using parseFields_mem [OF p] parseCell_filtered by blast
next
  assume p: "parseFieldsFromDefineRow rows d ''client'' = Inr fcli"
  show "\<forall>f\<in>set fcli. Flag f \<noteq> FieldFlagServer"
    using parseFields_mem [OF p] parseCell_filtered by blast
next
  assume p: "parseFieldsFromDefineRow rows d [] = Inr all"
  note r = parseFields_Inr_D [OF p]
  show "parseFieldsFromDefineRow rows d ''server''
          = (if filter (\<lambda>f. Flag f \<noteq> FieldFlagClient) all = [] then Inl EmptySchemaError
             else Inr (filter (\<lambda>f. Flag f \<noteq> FieldFlagClient) all))"
    using r rowFields_server [of d 0 "rows ! nat (d - 1)" all]
    by (simp add: parseFieldsFromDefineRow_rowFields)
  show "parseFieldsFromDefineRow rows d ''client''
          = (if filter (\<lambda>f. Flag f \<noteq> FieldFlagServer) all = [] then Inl EmptySchemaError
             else Inr (filter (\<lambda>f. Flag f \<noteq> FieldFlagServer) all))"
    using r rowFields_client [of d 0 "rows ! nat (d - 1)" all]
    by (simp add: parseFieldsFromDefineRow_rowFields)
next
  assume h: "parseFieldsFromDefineRow rows d [] = Inr all \<and> j < length (rows ! nat (d - 1))
      \<and> TrimSpace (rows ! nat (d - 1) ! j) \<noteq> [] \<and> \<not> commentCell (TrimSpace (rows ! nat (d - 1) ! j))
      \<and> fieldRe (TrimSpace (rows ! nat (d - 1) ! j)) = Some (n, t, fl)
      \<and> ToLower t \<noteq> ''comment'' \<and> ToLower t \<noteq> ''common''"
  then have p: "parseFieldsFromDefineRow rows d [] = Inr all"
    and jl: "j < length (rows ! nat (d - 1))"
    and m: "TrimSpace (rows ! nat (d - 1) ! j) \<noteq> []"
      "\<not> commentCell (TrimSpace (rows ! nat (d - 1) ! j))"
      "fieldRe (TrimSpace (rows ! nat (d - 1) ! j)) = Some (n, t, fl)"
    and ty: "ToLower t \<noteq> ''comment''" "ToLower t \<noteq> ''common''" by blast+
  have ok: "\<not> isl (parseCell [] d j (rows ! nat (d - 1) ! j))"
    using parseFields_cells_ok [OF p jl] .
  then obtain g where g: "mapGoType t = Some g"
    unfolding parseCell_matched [OF m] using ty by (cases "mapGoType t") auto
  define f where "f = \<lparr>RawName = n, Name = exportName n, RawType = t, GoType = g,
                       Col = int j, Flag = flagOf fl, Exported = True, IsComment = False\<rparr>"
  have "parseCell [] d j (rows ! nat (d - 1) ! j) = Inr (Some f)"
    unfolding parseCell_matched [OF m] f_def using ty g by simp
  then have "f \<in> set all" using parseFields_mem [OF p] jl by blast
  moreover have "Col f = int j \<and> RawName f = n \<and> RawType f = t \<and> Flag f = flagOf fl"
    by (simp add: f_def)
  ultimately show "\<exists>f\<in>set all. Col f = int j \<and> RawName f = n \<and> RawType f = t \<and> Flag f = flagOf fl"
    by blast
qed

text \<open>
  A define row with a field for all, the server-only field \<open>hp#int,s\<close> and a client-only
  field, parsed under the three filters.
\<close>

theorem visibility_filter_witness:
  "isIdent ''hp'' \<and> TrimSpace (visRows ! nat (2 - 1) ! 1) = ''hp'' @ ''#int,s''
   \<and> parseFieldsFromDefineRow visRows 2 [] = Inr [cidField, hpField, iconField]
   \<and> parseFieldsFromDefineRow visRows 2 ''server'' = Inr [cidField, hpField]
   \<and> parseFieldsFromDefineRow visRows 2 ''client'' = Inr [cidField, iconField]"
proof -
  have c: "isIdent ''hp''" "TrimSpace (visRows ! nat (2 - 1) ! 1) = ''hp'' @ ''#int,s''"
    by code_simp+
  have n: "parseFieldsFromDefineRow visRows 2 [] = Inr [cidField, hpField, iconField]"
    by code_simp
  have fl: "Flag cidField = FieldFlagAll" "Flag hpField = FieldFlagServer"
    "Flag iconField = FieldFlagClient"
    by (simp_all add: cidField_def hpField_def iconField_def)
  note v = visibility_filter [where rows = visRows and d = 2
        and all = "[cidField, hpField, iconField]"]
  note rel = mp [OF v [THEN conjunct2, THEN conjunct2, THEN conjunct2, THEN conjunct1] n]
  have s: "filter (\<lambda>f. Flag f \<noteq> FieldFlagClient) [cidField, hpField, iconField] = [cidField, hpField]"
    "filter (\<lambda>f. Flag f \<noteq> FieldFlagServer) [cidField, hpField, iconField] = [cidField, iconField]"
    using fl by simp_all
  have r: "parseFieldsFromDefineRow visRows 2 ''server'' = Inr [cidField, hpField]"
    "parseFieldsFromDefineRow visRows 2 ''client'' = Inr [cidField, iconField]"
    using rel unfolding s by simp_all
  show ?thesis using c n r by blast
qed

section \<open>Records of a sheet with repeated field names\<close>

text \<open>
  The inner loop writes the fields into the record from left to right, so the value of a
  name is the one written by the last field of that name.
\<close>


lemma readFields_append:
  "readFields pf r row (xs @ ys) obj =
     (case readFields pf r row xs obj of Inl e \<Rightarrow> Inl e | Inr o1 \<Rightarrow> readFields pf r row ys o1)"
  by (induction xs arbitrary: obj) (auto split: sum.splits)

lemma readFields_keep:
  "readFields pf r row fs obj = Inr o1 \<Longrightarrow> \<forall>g\<in>set fs. RawName g \<noteq> n \<Longrightarrow> o1 n = obj n"
proof (induction fs arbitrary: obj)
  case Nil
  then show ?case by simp
next
  case (Cons f fs)
  from Cons.prems(1) obtain v where
    v: "parseCellValue pf (RawType f) (cellAt row (Col f)) = Inr v" and
    rest: "readFields pf r row fs (obj(RawName f \<mapsto> v)) = Inr o1"
    by (auto split: sum.splits)
  have "o1 n = (obj(RawName f \<mapsto> v)) n" using Cons.IH [OF rest] Cons.prems(2) by simp
  then show ?case using Cons.prems(2) by auto
qed

lemma readFields_last:
  assumes "readFields pf r row (pre @ f # post) obj = Inr o1"
    and "\<forall>g\<in>set post. RawName g \<noteq> RawName f"
  shows "\<exists>v. parseCellValue pf (RawType f) (cellAt row (Col f)) = Inr v \<and> o1 (RawName f) = Some v"
proof -
  from assms(1) obtain o2 where o2: "readFields pf r row pre obj = Inr o2"
    and r2: "readFields pf r row (f # post) o2 = Inr o1"
    by (auto simp: readFields_append split: sum.splits)
  from r2 obtain v where
    v: "parseCellValue pf (RawType f) (cellAt row (Col f)) = Inr v" and
    rest: "readFields pf r row post (o2(RawName f \<mapsto> v)) = Inr o1"
    by (auto split: sum.splits)
  have "o1 (RawName f) = (o2(RawName f \<mapsto> v)) (RawName f)"
    using readFields_keep [OF rest assms(2)] .
  then show ?thesis using v by simp
qed

lemma readFields_dom:
  "readFields pf r row fs obj = Inr o1 \<Longrightarrow> dom o1 = dom obj \<union> RawName ` set fs"
proof (induction fs arbitrary: obj)
  case Nil
  then show ?case by simp
next
  case (Cons f fs)
  from Cons.prems(1) obtain v where
    rest: "readFields pf r row fs (obj(RawName f \<mapsto> v)) = Inr o1"
    by (auto split: sum.splits)
  show ?case using Cons.IH [OF rest] by auto
qed

lemma readFields_row_number:
  "readFields pf r row fs obj = Inr o1 \<Longrightarrow> readFields pf r' row fs obj = Inr o1"
proof (induction fs arbitrary: obj)
  case Nil
  then show ?case by simp
next
  case (Cons f fs)
  from Cons.prems(1) obtain v where
    v: "parseCellValue pf (RawType f) (cellAt row (Col f)) = Inr v" and
    rest: "readFields pf r row fs (obj(RawName f \<mapsto> v)) = Inr o1"
    by (auto split: sum.splits)
  have "readFields pf r' row fs (obj(RawName f \<mapsto> v)) = Inr o1"
    by (rule Cons.IH [OF rest])
  then show ?case using v by simp
qed

lemma readRows_items:
  "readRows pf fs r rest items = Inr out \<Longrightarrow>
   \<exists>objs. out = items @ objs
     \<and> list_all2 (\<lambda>row obj. readFields pf 0 row fs Map.empty = Inr obj)
          (filter (\<lambda>row. \<not> isEmptyRow row) rest) objs"
proof (induction rest arbitrary: r items)
  case Nil
  then show ?case by simp
next
  case (Cons row rest)
  show ?case
  proof (cases "isEmptyRow row")
    case True
    then show ?thesis using Cons.IH [of "Suc r" items] Cons.prems by simp
  next
    case False
    from Cons.prems False obtain obj where
      obj: "readFields pf r row fs Map.empty = Inr obj" and
      rest: "readRows pf fs (Suc r) rest (items @ [obj]) = Inr out"
      by (auto split: sum.splits)
    from Cons.IH [OF rest] obtain objs where
      o: "out = (items @ [obj]) @ objs"
      "list_all2 (\<lambda>row obj. readFields pf 0 row fs Map.empty = Inr obj)
          (filter (\<lambda>row. \<not> isEmptyRow row) rest) objs" by blast
    have "readFields pf 0 row fs Map.empty = Inr obj" using readFields_row_number [OF obj] .
    then have "list_all2 (\<lambda>row obj. readFields pf 0 row fs Map.empty = Inr obj)
          (filter (\<lambda>row. \<not> isEmptyRow row) (row # rest)) (obj # objs)"
      using o(2) False by simp
    moreover have "out = items @ (obj # objs)" using o(1) by simp
    ultimately show ?thesis by blast
  qed
qed

lemma readHorizontalItems_records:
  assumes "readHorizontalItems pf rows start fs = Inr items"
  shows "length items = length (dataRows rows start)
       \<and> (\<forall>k<length items. readFields pf 0 (dataRows rows start ! k) fs Map.empty = Inr (items ! k))"
proof -
  define r where "r = nat ((if start \<le> 0 then 1 else start) - 1)"
  have "readRows pf fs r (drop r rows) [] = Inr items"
    using assms by (simp add: readHorizontalItems_def Let_def r_def)
  then obtain objs where "items = [] @ objs"
    "list_all2 (\<lambda>row obj. readFields pf 0 row fs Map.empty = Inr obj)
          (filter (\<lambda>row. \<not> isEmptyRow row) (drop r rows)) objs"
    using readRows_items by blast
  then have l: "list_all2 (\<lambda>row obj. readFields pf 0 row fs Map.empty = Inr obj)
          (dataRows rows start) items"
    by (simp add: dataRows_def r_def)
  show ?thesis
    using list_all2_lengthD [OF l] list_all2_nthD2 [OF l] by simp
qed

lemma rightmost_no_later:
  assumes "sorted_wrt (\<lambda>f g. Col f < Col g) (pre @ f # post)"
    and "\<forall>g\<in>set (pre @ f # post). RawName g = RawName f \<longrightarrow> Col g \<le> Col f"
  shows "\<forall>g\<in>set post. RawName g \<noteq> RawName f"
proof
  fix g assume g: "g \<in> set post"
  then have "Col f < Col g" using assms(1) by (auto simp: sorted_wrt_append)
  moreover have "RawName g = RawName f \<longrightarrow> Col g \<le> Col f" using assms(2) g by simp
  ultimately show "RawName g \<noteq> RawName f" by auto
qed

text \<open>
  C10.  The parser does not look at the names of the cells it has already accepted.  When
  no cell of the define row is rejected and some cell gives a field, the parser succeeds,
  whatever names repeat.  When it succeeds, the field list holds one field for each cell
  that gives a field, with the column of that cell, and no other field, in strictly
  increasing order of the column: nothing is merged.  When the data rows are then read
  without error, there is one record for each row that is not empty, the names of every
  record are exactly the raw names of the fields, and for a field that is the rightmost
  one of its raw name the record maps that name to the value decoded, by the raw type of
  that field, from the cell of its column; what the fields of the same name to the left
  decoded is overwritten.
\<close>

theorem duplicate_names_rightmost_wins:
  "(0 < d \<and> d \<le> int (length rows)
      \<and> (\<forall>i<length (rows ! nat (d - 1)). \<not> isl (parseCell ef d i (rows ! nat (d - 1) ! i)))
      \<and> (\<exists>i<length (rows ! nat (d - 1)). \<exists>f. parseCell ef d i (rows ! nat (d - 1) ! i) = Inr (Some f))
      \<longrightarrow> (\<exists>fs. parseFieldsFromDefineRow rows d ef = Inr fs))
   \<and> (parseFieldsFromDefineRow rows d ef = Inr fs \<longrightarrow>
        (\<forall>i<length (rows ! nat (d - 1)). \<forall>f.
            parseCell ef d i (rows ! nat (d - 1) ! i) = Inr (Some f) \<longrightarrow> f \<in> set fs \<and> Col f = int i)
        \<and> (\<forall>f\<in>set fs. \<exists>i<length (rows ! nat (d - 1)).
              parseCell ef d i (rows ! nat (d - 1) ! i) = Inr (Some f))
        \<and> sorted_wrt (\<lambda>f g. Col f < Col g) fs)
   \<and> (parseFieldsFromDefineRow rows d ef = Inr fs
      \<and> readHorizontalItems parseFloat rows start fs = Inr items \<longrightarrow>
        length items = length (dataRows rows start)
        \<and> (\<forall>k<length items. dom (items ! k) = RawName ` set fs)
        \<and> (\<forall>k<length items. \<forall>f\<in>set fs.
              (\<forall>g\<in>set fs. RawName g = RawName f \<longrightarrow> Col g \<le> Col f) \<longrightarrow>
              (\<exists>v. parseCellValue parseFloat (RawType f) (cellAt (dataRows rows start ! k) (Col f)) = Inr v
                   \<and> (items ! k) (RawName f) = Some v)))"
proof (intro conjI impI)
  assume h: "0 < d \<and> d \<le> int (length rows)
      \<and> (\<forall>i<length (rows ! nat (d - 1)). \<not> isl (parseCell ef d i (rows ! nat (d - 1) ! i)))
      \<and> (\<exists>i<length (rows ! nat (d - 1)). \<exists>f. parseCell ef d i (rows ! nat (d - 1) ! i) = Inr (Some f))"
  then obtain fs' where r: "rowFields ef d 0 (rows ! nat (d - 1)) = Inr fs'"
    using rowFields_Inr_I [of "rows ! nat (d - 1)" ef d 0] by auto
  from h obtain i f where "i < length (rows ! nat (d - 1))"
    "parseCell ef d i (rows ! nat (d - 1) ! i) = Inr (Some f)" by blast
  then have "f \<in> set fs'" using rowFields_Inr_D [OF r] by auto
  then have "fs' \<noteq> []" by auto
  then show "\<exists>fs. parseFieldsFromDefineRow rows d ef = Inr fs"
    using h r by (simp add: parseFieldsFromDefineRow_rowFields)
next
  assume p: "parseFieldsFromDefineRow rows d ef = Inr fs"
  show "\<forall>i<length (rows ! nat (d - 1)). \<forall>f.
            parseCell ef d i (rows ! nat (d - 1) ! i) = Inr (Some f) \<longrightarrow> f \<in> set fs \<and> Col f = int i"
    using parseFields_mem [OF p] parseCell_Col by blast
  show "\<forall>f\<in>set fs. \<exists>i<length (rows ! nat (d - 1)).
              parseCell ef d i (rows ! nat (d - 1) ! i) = Inr (Some f)"
    using parseFields_mem [OF p] by blast
  show "sorted_wrt (\<lambda>f g. Col f < Col g) fs"
    using rowFields_Cols [of ef d 0 "rows ! nat (d - 1)" fs] parseFields_Inr_D [OF p] by simp
next
  assume h: "parseFieldsFromDefineRow rows d ef = Inr fs
      \<and> readHorizontalItems parseFloat rows start fs = Inr items"
  then have p: "parseFieldsFromDefineRow rows d ef = Inr fs"
    and rd: "readHorizontalItems parseFloat rows start fs = Inr items" by blast+
  note rec = readHorizontalItems_records [OF rd]
  have srt: "sorted_wrt (\<lambda>f g. Col f < Col g) fs"
    using rowFields_Cols [of ef d 0 "rows ! nat (d - 1)" fs] parseFields_Inr_D [OF p] by simp
  show "length items = length (dataRows rows start)" using rec by simp
  show "\<forall>k<length items. dom (items ! k) = RawName ` set fs"
    using rec readFields_dom by fastforce
  show "\<forall>k<length items. \<forall>f\<in>set fs.
              (\<forall>g\<in>set fs. RawName g = RawName f \<longrightarrow> Col g \<le> Col f) \<longrightarrow>
              (\<exists>v. parseCellValue parseFloat (RawType f) (cellAt (dataRows rows start ! k) (Col f)) = Inr v
                   \<and> (items ! k) (RawName f) = Some v)"
  proof (intro allI impI ballI)
    fix k f
    assume k: "k < length items" and f: "f \<in> set fs"
      and last: "\<forall>g\<in>set fs. RawName g = RawName f \<longrightarrow> Col g \<le> Col f"
    obtain pre post where sp: "fs = pre @ f # post" using f by (meson split_list)
    have nolater: "\<forall>g\<in>set post. RawName g \<noteq> RawName f"
      using rightmost_no_later [of pre f post] srt last unfolding sp by blast
    have "readFields parseFloat 0 (dataRows rows start ! k) (pre @ f # post) Map.empty = Inr (items ! k)"
      using rec k unfolding sp by blast
    then show "\<exists>v. parseCellValue parseFloat (RawType f) (cellAt (dataRows rows start ! k) (Col f)) = Inr v
                   \<and> (items ! k) (RawName f) = Some v"
      using readFields_last nolater by blast
  qed
qed

text \<open>
  The define row names \<open>a\<close> in the columns 0 and 1; the record of the data row maps \<open>a\<close> to
  the string of column 1, not to the number of column 0.
\<close>

theorem duplicate_names_rightmost_wins_witness:
  "parseFieldsFromDefineRow dupRows 1 [] = Inr dupFields
   \<and> \<not> isl (readHorizontalItems noFloat dupRows 2 dupFields)
   \<and> length (projr (readHorizontalItems noFloat dupRows 2 dupFields)) = 1
   \<and> (projr (readHorizontalItems noFloat dupRows 2 dupFields) ! 0) ''a'' = Some (VString ''x'')"
proof -
  define items where "items = projr (readHorizontalItems noFloat dupRows 2 dupFields)"
  define f where "f = \<lparr>RawName = ''a'', Name = ''A'', RawType = ''string'', GoType = ''string'',
       Col = 1, Flag = FieldFlagAll, Exported = True, IsComment = False\<rparr>"
  have p: "parseFieldsFromDefineRow dupRows 1 [] = Inr dupFields" by code_simp
  have ok: "\<not> isl (readHorizontalItems noFloat dupRows 2 dupFields)" by code_simp
  then have rd: "readHorizontalItems noFloat dupRows 2 dupFields = Inr items"
    by (simp add: items_def)
  have dr: "dataRows dupRows 2 = [[''1'', ''x'', ''2'']]" by code_simp
  have fin: "f \<in> set dupFields" by (simp add: f_def dupFields_def)
  have last: "\<forall>g\<in>set dupFields. RawName g = RawName f \<longrightarrow> Col g \<le> Col f"
    by (simp add: f_def dupFields_def)
  have dec: "parseCellValue noFloat ''string'' (cellAt [''1'', ''x'', ''2''] 1) = Inr (VString ''x'')"
    by code_simp
  note t = duplicate_names_rightmost_wins [where rows = dupRows and d = 1 and ef = "[]"
      and fs = dupFields and parseFloat = noFloat and start = 2 and items = items]
  note c3 = mp [OF t [THEN conjunct2, THEN conjunct2] conjI [OF p rd]]
  have len: "length items = 1" using c3 [THEN conjunct1] dr by simp
  then have k0: "0 < length items" by simp
  have "\<exists>v. parseCellValue noFloat (RawType f) (cellAt (dataRows dupRows 2 ! 0) (Col f)) = Inr v
            \<and> (items ! 0) (RawName f) = Some v"
    using c3 [THEN conjunct2, THEN conjunct2] k0 fin last by blast
  then have "(items ! 0) ''a'' = Some (VString ''x'')"
    using dec by (simp add: dr f_def)
  then show ?thesis using p ok len by (simp add: items_def)
qed

end
